theory Spec2Isabelle
  imports Main "HOL-Library.AList"
begin

section \<open>The background command-execution session manager of system.py\<close>

text \<open>
  The theory embeds the terminal session classes of \<^verbatim>\<open>system.py\<close> (lines 279 to 693):
  the three dataclasses, the manager with its two dictionaries and its id counter, and the
  four public methods together with \<^verbatim>\<open>_move_session_to_completed\<close>.

  What the methods obtain from outside the manager is passed to them as a value:
  the result of \<^verbatim>\<open>subprocess.Popen\<close>, the readings of \<^verbatim>\<open>datetime.now()\<close>, the outcome of every
  call on the process handle, and, for each iteration of a polling loop, what the reader
  thread put on the queue before \<^verbatim>\<open>output_queue.get(timeout=0.1)\<close> returned. A Python
  dictionary is an association list in insertion order with \<^const>\<open>AList.update\<close> and
  \<^const>\<open>AList.delete\<close>; its \<^verbatim>\<open>len\<close> is the length of the list, the keys being distinct.
\<close>

subsection \<open>Text of numbers\<close>

definition digit_char :: "nat \<Rightarrow> char" where
  "digit_char d = ''0123456789'' ! (d mod 10)"

fun str_nat :: "nat \<Rightarrow> string" where
  "str_nat n = (if n < 10 then [digit_char n] else str_nat (n div 10) @ [digit_char n])"

declare str_nat.simps [simp del]

text \<open>Python's \<^verbatim>\<open>str\<close> of an integer, as an f-string prints it.\<close>

definition str_int :: "int \<Rightarrow> string" where
  "str_int i = (if i < 0 then CHR ''-'' # str_nat (nat (- i)) else str_nat (nat i))"

text \<open>An exit code is \<^verbatim>\<open>Optional[int]\<close>: an f-string prints \<^verbatim>\<open>None\<close> for the missing one.\<close>

definition str_exit_code :: "int option \<Rightarrow> string" where
  "str_exit_code c = (case c of None \<Rightarrow> ''None'' | Some i \<Rightarrow> str_int i)"

subsection \<open>Data model\<close>

text \<open>
  A \<^verbatim>\<open>datetime\<close> is a count of microseconds. A process handle and a thread handle are opaque
  numbers: the manager only stores them.
\<close>

type_synonym datetime = int
type_synonym popen_handle = nat
type_synonym thread_handle = nat

text \<open>
  The tuples on a session's queue: \<^verbatim>\<open>('output', text)\<close>, \<^verbatim>\<open>('completed', returncode)\<close> and
  \<^verbatim>\<open>('error', str(e))\<close>. The return code is \<^verbatim>\<open>process.returncode\<close>, which is \<^verbatim>\<open>None\<close> as long as
  no \<^verbatim>\<open>poll\<close> or \<^verbatim>\<open>wait\<close> has seen the process exit.
\<close>

datatype queue_item = Output string | Completed "int option" | Error string

record terminal_session_with_process_tracking =
  process_id :: int
  process :: popen_handle
  accumulated_output_buffer :: string
  newly_available_output_since_last_read :: string
  command_execution_has_completed :: bool
  session_creation_timestamp :: datetime
  output_reading_thread :: "thread_handle option"
  output_queue :: "queue_item list"
  last_exit_code :: "int option"

record completed_terminal_session_with_full_history =
  completed_process_id :: int
  complete_output_text :: string
  final_exit_code :: "int option"
  session_start_time :: datetime
  session_end_time :: datetime

record command_execution_result_with_background_support =
  result_process_id :: int
  initial_output_text :: string
  command_is_still_running_in_background :: bool
  error_message :: "string option"

record comprehensive_terminal_session_manager_with_background_support =
  active_terminal_sessions :: "(int \<times> terminal_session_with_process_tracking) list"
  completed_session_history :: "(int \<times> completed_terminal_session_with_full_history) list"
  next_session_id :: int
  maximum_completed_sessions_to_retain :: int

type_synonym session = terminal_session_with_process_tracking
type_synonym manager = comprehensive_terminal_session_manager_with_background_support

text \<open>\<^verbatim>\<open>__init__\<close>: both dictionaries empty, the first id 1, room for 100 completed sessions.\<close>

definition init :: manager where
  "init = \<lparr>active_terminal_sessions = [], completed_session_history = [],
           next_session_id = 1, maximum_completed_sessions_to_retain = 100\<rparr>"

subsection \<open>The queue between the reader thread and the manager\<close>

text \<open>
  One iteration of a polling loop, seen from the manager: \<open>reader_puts\<close> are the items
  the reader thread put on the queue since the previous iteration and before this
  \<^verbatim>\<open>get(timeout=0.1)\<close> gave up; \<open>process_poll\<close> is what \<^verbatim>\<open>process.poll()\<close> answers
  when the loop asks. The list of ticks a loop receives ends where the clock passes the
  deadline \<^verbatim>\<open>time.time() - start_time < timeout_seconds\<close>.
\<close>

record tick =
  reader_puts :: "queue_item list"
  process_poll :: "int option"

text \<open>
  \<^verbatim>\<open>queue.Queue.get\<close>: the oldest item, or \<^verbatim>\<open>queue.Empty\<close> (here \<open>None\<close>) when nothing is
  there and nothing came.
\<close>

definition queue_get ::
  "queue_item list \<Rightarrow> queue_item list \<Rightarrow> (queue_item \<times> queue_item list) option" where
  "queue_get q puts = (case q @ puts of [] \<Rightarrow> None | item # rest \<Rightarrow> Some (item, rest))"

text \<open>With a timeout of zero or less the loop condition is false at once.\<close>

definition ticks_before_deadline :: "int \<Rightarrow> tick list \<Rightarrow> tick list" where
  "ticks_before_deadline timeout_milliseconds ticks =
     (if timeout_milliseconds \<le> 0 then [] else ticks)"

subsection \<open>Moving a session to the completed history\<close>

text \<open>
  \<^verbatim>\<open>_move_session_to_completed\<close> (lines 670 to 693) is three statements on the two
  dictionaries, each given here as a function of its own: the completed session, made of
  the accumulated buffer and the session's \<open>last_exit_code\<close>, is stored in the history
  (lines 677 to 685); when the history has grown beyond the maximum, the entry with the
  least id is deleted (lines 688 to 690); the active entry is deleted (line 693).
\<close>

definition store_completed_session :: "manager \<Rightarrow> int \<Rightarrow> session \<Rightarrow> datetime \<Rightarrow> manager" where
  "store_completed_session m session_id session now =
     (let completed_session =
            \<lparr>completed_process_id = session_id,
             complete_output_text = accumulated_output_buffer session,
             final_exit_code = last_exit_code session,
             session_start_time = session_creation_timestamp session,
             session_end_time = now\<rparr>
      in m\<lparr>completed_session_history :=
             AList.update session_id completed_session (completed_session_history m)\<rparr>)"

definition keep_most_recent_completed :: "manager \<Rightarrow> manager" where
  "keep_most_recent_completed m =
     (if int (length (completed_session_history m)) > maximum_completed_sessions_to_retain m
      then let oldest_session_id = Min (fst ` set (completed_session_history m))
           in m\<lparr>completed_session_history :=
                  AList.delete oldest_session_id (completed_session_history m)\<rparr>
      else m)"

definition remove_from_active :: "manager \<Rightarrow> int \<Rightarrow> manager" where
  "remove_from_active m session_id =
     m\<lparr>active_terminal_sessions := AList.delete session_id (active_terminal_sessions m)\<rparr>"

definition move_session_to_completed :: "manager \<Rightarrow> int \<Rightarrow> datetime \<Rightarrow> manager" where
  "move_session_to_completed m session_id now =
     (case map_of (active_terminal_sessions m) session_id of
        None \<Rightarrow> m
      | Some session \<Rightarrow>
          remove_from_active
            (keep_most_recent_completed (store_completed_session m session_id session now))
            session_id)"

subsection \<open>start\<close>

text \<open>
  What \<^verbatim>\<open>start_command_execution_with_timeout_and_background_support\<close> meets outside the
  manager: \<^verbatim>\<open>subprocess.Popen\<close> returns a handle or raises (the text is \<^verbatim>\<open>str(e)\<close>);
  \<^verbatim>\<open>reader_thread.start()\<close> of line 459 starts the thread or raises (\<open>thread_start\<close> is
  the text of the exception, as when no more threads can be created); the reading of
  \<^verbatim>\<open>datetime.now()\<close>; and the ticks of the loop that collects the initial output. The
  choice of the shell (lines 328 to 365) only selects the arguments of \<^verbatim>\<open>Popen\<close>.
\<close>

datatype popen_result = PopenReturns popen_handle | PopenRaises string

record start_environment =
  popen :: popen_result
  thread_start :: "string option"
  started_thread :: thread_handle
  creation_now :: datetime
  start_ticks :: "tick list"

text \<open>
  Line 478 divides the timeout by \<^verbatim>\<open>1000.0\<close>, which converts the integer to a float first.
  The conversion rounds to the nearest float and raises \<^verbatim>\<open>OverflowError\<close> when the result
  is beyond the largest one, \<open>2 ^ 1024 - 2 ^ 971\<close>: that is from \<open>2 ^ 1024 - 2 ^ 970\<close> on,
  the middle between the largest float and \<open>2 ^ 1024\<close>. The text of the exception is
  \<open>int too large to convert to float\<close>.
\<close>

definition converts_to_float :: "int \<Rightarrow> bool" where
  "converts_to_float i \<longleftrightarrow> \<bar>i\<bar> < 2 ^ 1024 - 2 ^ 970"

text \<open>
  The whole body of the method is inside \<^verbatim>\<open>try\<close> (line 326); the handler of lines 521 to
  528 turns every exception into this result.
\<close>

definition failed_to_execute ::
  "string \<Rightarrow> command_execution_result_with_background_support" where
  "failed_to_execute e =
     \<lparr>result_process_id = - 1, initial_output_text = '''',
      command_is_still_running_in_background = False,
      error_message = Some (''Failed to execute command: '' @ e)\<rparr>"

text \<open>
  The loop of lines 481 to 508. It returns the session as the loop left it, the
  \<open>initial_output\<close>, and the content of the \<^verbatim>\<open>'error'\<close> item when the loop returned on one.
\<close>

fun collect_initial_output ::
  "tick list \<Rightarrow> session \<Rightarrow> string \<Rightarrow> session \<times> string \<times> string option" where
  "collect_initial_output [] session initial_output = (session, initial_output, None)"
| "collect_initial_output (t # ticks) session initial_output =
     (case queue_get (output_queue session) (reader_puts t) of
        Some (Output content, q) \<Rightarrow>
          collect_initial_output ticks
            (session\<lparr>output_queue := q,
               accumulated_output_buffer := accumulated_output_buffer session @ content,
               newly_available_output_since_last_read :=
                 newly_available_output_since_last_read session @ content\<rparr>)
            (initial_output @ content)
      | Some (Completed content, q) \<Rightarrow>
          (session\<lparr>output_queue := q, command_execution_has_completed := True,
             last_exit_code := content\<rparr>, initial_output, None)
      | Some (Error content, q) \<Rightarrow>
          (session\<lparr>output_queue := q\<rparr>, initial_output, Some content)
      | None \<Rightarrow>
          (case process_poll t of
             Some returncode \<Rightarrow>
               (session\<lparr>command_execution_has_completed := True,
                  last_exit_code := Some returncode\<rparr>, initial_output, None)
           | None \<Rightarrow> collect_initial_output ticks session initial_output))"

text \<open>
  The method, in the order of its statements: \<^verbatim>\<open>Popen\<close>; the counter read and incremented
  (lines 431 and 432); the thread started (line 459); the session stored in the active map
  (line 474); the timeout converted (line 478); the loop; the result. An exception of
  \<^verbatim>\<open>Popen\<close>, of the thread start or of the conversion ends the method in the handler, with
  the manager as the statements before it have left it.
\<close>

definition start_command_execution_with_timeout_and_background_support ::
  "manager \<Rightarrow> string \<Rightarrow> int \<Rightarrow> string option \<Rightarrow> start_environment \<Rightarrow>
   manager \<times> command_execution_result_with_background_support" where
  "start_command_execution_with_timeout_and_background_support m command_text
       timeout_milliseconds shell_path env =
     (case popen env of
        PopenRaises e \<Rightarrow> (m, failed_to_execute e)
      | PopenReturns handle \<Rightarrow>
          let session_id = next_session_id m;
              m1 = m\<lparr>next_session_id := next_session_id m + 1\<rparr>
          in (case thread_start env of
                Some e \<Rightarrow> (m1, failed_to_execute e)
              | None \<Rightarrow>
                  let session =
                        \<lparr>process_id = session_id, process = handle,
                         accumulated_output_buffer = '''',
                         newly_available_output_since_last_read = '''',
                         command_execution_has_completed = False,
                         session_creation_timestamp = creation_now env,
                         output_reading_thread = Some (started_thread env),
                         output_queue = [], last_exit_code = None\<rparr>;
                      m2 = m1\<lparr>active_terminal_sessions :=
                                AList.update session_id session (active_terminal_sessions m1)\<rparr>
                  in if \<not> converts_to_float timeout_milliseconds
                     then (m2, failed_to_execute ''int too large to convert to float'')
                     else
                       let (session', initial_output, error) =
                             collect_initial_output
                               (ticks_before_deadline timeout_milliseconds (start_ticks env))
                               session '''';
                           m3 = m2\<lparr>active_terminal_sessions :=
                                  AList.update session_id session' (active_terminal_sessions m2)\<rparr>
                       in (case error of
                             Some content \<Rightarrow>
                               (m3, \<lparr>result_process_id = session_id,
                                     initial_output_text = initial_output,
                                     command_is_still_running_in_background = False,
                                     error_message = Some (''Process error: '' @ content)\<rparr>)
                           | None \<Rightarrow>
                               (m3, \<lparr>result_process_id = session_id,
                                     initial_output_text = initial_output,
                                     command_is_still_running_in_background =
                                       (\<not> command_execution_has_completed session'),
                                     error_message = None\<rparr>))))"

subsection \<open>read\<close>

text \<open>
  How the loop of lines 557 to 589 ends: on a plain \<^verbatim>\<open>return\<close>, on the \<^verbatim>\<open>return\<close> that
  follows \<^verbatim>\<open>_move_session_to_completed\<close>, or by the deadline.
\<close>

datatype read_exit = Returns string | ReturnsAfterMove string | TimeoutReached string

fun wait_for_new_output :: "tick list \<Rightarrow> session \<Rightarrow> string \<Rightarrow> session \<times> read_exit" where
  "wait_for_new_output [] session new_output =
     (session, TimeoutReached (if new_output \<noteq> '''' then new_output
                               else ''No new output available''))"
| "wait_for_new_output (t # ticks) session new_output =
     (case queue_get (output_queue session) (reader_puts t) of
        Some (Output content, q) \<Rightarrow>
          (let session' = session\<lparr>output_queue := q,
                 accumulated_output_buffer := accumulated_output_buffer session @ content\<rparr>
           in if new_output @ content \<noteq> '''' then (session', Returns (new_output @ content))
              else wait_for_new_output ticks session' (new_output @ content))
      | Some (Completed content, q) \<Rightarrow>
          (session\<lparr>output_queue := q, command_execution_has_completed := True,
             last_exit_code := content\<rparr>,
           ReturnsAfterMove (if new_output \<noteq> '''' then new_output
              else ''Process completed with exit code '' @ str_exit_code content))
      | Some (Error content, q) \<Rightarrow>
          (session\<lparr>output_queue := q\<rparr>, Returns (''Process error: '' @ content))
      | None \<Rightarrow>
          (if command_execution_has_completed session
           then (session, Returns (if new_output \<noteq> '''' then new_output
                   else ''Process completed with exit code ''
                          @ str_exit_code (last_exit_code session)))
           else wait_for_new_output ticks session new_output))"

text \<open>
  For an active session with an empty pending buffer, line 553 converts the timeout as
  line 478 does. No handler of the method catches the \<^verbatim>\<open>OverflowError\<close>: the call then
  returns nothing and leaves the manager as it is. The function below gives what the
  method returns; the calls that raise instead are those of \<open>read_raises_overflow_error\<close>.
\<close>

definition read_raises_overflow_error :: "manager \<Rightarrow> int \<Rightarrow> int \<Rightarrow> bool" where
  "read_raises_overflow_error m session_id timeout_milliseconds \<longleftrightarrow>
     (case map_of (active_terminal_sessions m) session_id of
        None \<Rightarrow> False
      | Some session \<Rightarrow>
          newly_available_output_since_last_read session = '''' \<and>
          \<not> converts_to_float timeout_milliseconds)"

text \<open>
  What \<^verbatim>\<open>read_new_output_from_session_with_timeout\<close> meets outside the manager: the ticks
  of its loop, the reading of \<^verbatim>\<open>datetime.now()\<close> in \<^verbatim>\<open>_move_session_to_completed\<close>, and the
  text that \<^verbatim>\<open>{runtime:.2f}\<close> prints for a completed session (a floating-point number
  formatted to two decimals, taken as given).
\<close>

record read_environment =
  read_ticks :: "tick list"
  move_now :: datetime
  runtime_text :: string

definition read_new_output_from_session_with_timeout ::
  "manager \<Rightarrow> int \<Rightarrow> int \<Rightarrow> read_environment \<Rightarrow> manager \<times> string \<times> bool" where
  "read_new_output_from_session_with_timeout m session_id timeout_milliseconds env =
     (case map_of (active_terminal_sessions m) session_id of
        None \<Rightarrow>
          (case map_of (completed_session_history m) session_id of
             Some completed \<Rightarrow>
               (m, ''Process completed with exit code '' @ str_exit_code (final_exit_code completed)
                     @ [CHR 0x0A] @ ''Runtime: '' @ runtime_text env @ ''s'' @ [CHR 0x0A]
                     @ ''Final output:'' @ [CHR 0x0A] @ complete_output_text completed, False)
           | None \<Rightarrow> (m, ''No session found for ID '' @ str_int session_id, False))
      | Some session \<Rightarrow>
          if newly_available_output_since_last_read session \<noteq> ''''
          then (m\<lparr>active_terminal_sessions :=
                     AList.update session_id
                       (session\<lparr>newly_available_output_since_last_read := ''''\<rparr>)
                       (active_terminal_sessions m)\<rparr>,
                newly_available_output_since_last_read session, False)
          else
            (case wait_for_new_output
                    (ticks_before_deadline timeout_milliseconds (read_ticks env)) session '''' of
               (session', exit) \<Rightarrow>
                 let m' = m\<lparr>active_terminal_sessions :=
                              AList.update session_id session' (active_terminal_sessions m)\<rparr>
                 in (case exit of
                       Returns output \<Rightarrow> (m', output, False)
                     | ReturnsAfterMove output \<Rightarrow>
                         (move_session_to_completed m' session_id (move_now env), output, False)
                     | TimeoutReached output \<Rightarrow> (m', output, True))))"

subsection \<open>terminate\<close>

text \<open>
  The calls on the process handle in \<^verbatim>\<open>force_terminate_session_with_cleanup\<close> return or
  raise. The handlers of the method tell \<^verbatim>\<open>subprocess.TimeoutExpired\<close>, \<^verbatim>\<open>OSError\<close> and
  \<^verbatim>\<open>AttributeError\<close> from every other exception. The Windows branch sends
  \<^verbatim>\<open>CTRL_BREAK_EVENT\<close> where the other branch calls \<^verbatim>\<open>terminate()\<close>; the handlers are the same.
\<close>

datatype py_exception = OSError | AttributeError | TimeoutExpired | OtherException

record stop_environment =
  graceful_stop :: "py_exception option"
  wait_two_seconds :: "py_exception option"
  kill_after_timeout :: "py_exception option"
  wait_after_kill :: "py_exception option"
  fallback_kill :: "py_exception option"
  fallback_wait :: "py_exception option"
  terminate_now :: datetime

text \<open>
  Lines 603 to 639: the exception that leaves the inner \<^verbatim>\<open>try\<close> statements, if any.
\<close>

definition stop_process :: "stop_environment \<Rightarrow> py_exception option" where
  "stop_process env =
     (let graceful =
            (case graceful_stop env of
               Some e \<Rightarrow> Some e
             | None \<Rightarrow>
                 (case wait_two_seconds env of
                    None \<Rightarrow> None
                  | Some TimeoutExpired \<Rightarrow>
                      (case kill_after_timeout env of
                         Some e \<Rightarrow> Some e
                       | None \<Rightarrow> wait_after_kill env)
                  | Some e \<Rightarrow> Some e))
      in case graceful of
           None \<Rightarrow> None
         | Some e \<Rightarrow>
             if e = OSError \<or> e = AttributeError
             then (case fallback_kill env of Some e' \<Rightarrow> Some e' | None \<Rightarrow> fallback_wait env)
             else Some e)"

definition force_terminate_session_with_cleanup ::
  "manager \<Rightarrow> int \<Rightarrow> stop_environment \<Rightarrow> manager \<times> bool" where
  "force_terminate_session_with_cleanup m session_id env =
     (case map_of (active_terminal_sessions m) session_id of
        None \<Rightarrow> (m, False)
      | Some session \<Rightarrow>
          (case stop_process env of
             None \<Rightarrow> (move_session_to_completed m session_id (terminate_now env), True)
           | Some e \<Rightarrow> (m, False)))"

subsection \<open>list\<close>

text \<open>
  One dictionary per active session, in the order of the active map. The running time is
  the difference of the two clock readings in microseconds; its rounding to two decimals
  is floating-point arithmetic and is left out.
\<close>

record session_status =
  status_session_id :: int
  is_completed :: bool
  runtime_microseconds :: int
  has_new_output :: bool
  total_output_length :: nat

definition get_list_of_all_active_sessions_with_status ::
  "manager \<Rightarrow> datetime \<Rightarrow> session_status list" where
  "get_list_of_all_active_sessions_with_status m current_time =
     map (\<lambda>(session_id, session).
            \<lparr>status_session_id = session_id,
             is_completed = command_execution_has_completed session,
             runtime_microseconds = current_time - session_creation_timestamp session,
             has_new_output = (length (newly_available_output_since_last_read session) > 0),
             total_output_length = length (accumulated_output_buffer session)\<rparr>)
         (active_terminal_sessions m)"

subsection \<open>Sequences of calls\<close>

text \<open>
  A call of one of the four methods with what it meets outside, and the manager it leaves.
  A read that raises at line 553 leaves the manager as it is.
\<close>

datatype operation =
    Start string int "string option" start_environment
  | Read int int read_environment
  | Terminate int stop_environment
  | ListSessions datetime

fun apply_operation :: "manager \<Rightarrow> operation \<Rightarrow> manager" where
  "apply_operation m (Start command_text timeout_milliseconds shell_path env) =
     fst (start_command_execution_with_timeout_and_background_support m command_text
            timeout_milliseconds shell_path env)"
| "apply_operation m (Read session_id timeout_milliseconds env) =
     (if read_raises_overflow_error m session_id timeout_milliseconds then m
      else fst (read_new_output_from_session_with_timeout m session_id timeout_milliseconds
                  env))"
| "apply_operation m (Terminate session_id env) =
     fst (force_terminate_session_with_cleanup m session_id env)"
| "apply_operation m (ListSessions current_time) = m"

definition run :: "operation list \<Rightarrow> manager" where
  "run ops = foldl apply_operation init ops"

subsection \<open>The registry and its invariant\<close>

text \<open>The keys of the two dictionaries.\<close>

definition active_ids :: "manager \<Rightarrow> int set" where
  "active_ids m = fst ` set (active_terminal_sessions m)"

definition completed_ids :: "manager \<Rightarrow> int set" where
  "completed_ids m = fst ` set (completed_session_history m)"

text \<open>
  What every sequence of calls keeps: the keys of each dictionary are distinct (the list is
  a dictionary), every id in use is below the counter, no id is in both dictionaries, and
  the history is within its maximum.
\<close>

definition registry_invariant :: "manager \<Rightarrow> bool" where
  "registry_invariant m \<longleftrightarrow>
     distinct (map fst (active_terminal_sessions m)) \<and>
     distinct (map fst (completed_session_history m)) \<and>
     (\<forall>k \<in> active_ids m \<union> completed_ids m. k < next_session_id m) \<and>
     active_ids m \<inter> completed_ids m = {} \<and>
     int (length (completed_session_history m)) \<le> maximum_completed_sessions_to_retain m"

subsection \<open>Concrete environments\<close>

text \<open>
  A start whose process prints nothing in a window of zero milliseconds, a stop in which no
  call raises, and the run that starts 101 such sessions and terminates the first 100.
\<close>

definition quiet_start :: operation where
  "quiet_start = Start ''sleep 60'' 0 None
     \<lparr>popen = PopenReturns 0, thread_start = None, started_thread = 0, creation_now = 0, start_ticks = []\<rparr>"

definition clean_stop :: stop_environment where
  "clean_stop = \<lparr>graceful_stop = None, wait_two_seconds = None, kill_after_timeout = None,
     wait_after_kill = None, fallback_kill = None, fallback_wait = None, terminate_now = 0\<rparr>"

definition full_history_ops :: "operation list" where
  "full_history_ops = replicate 101 quiet_start @ map (\<lambda>i. Terminate (int i) clean_stop) [1..<101]"

text \<open>
  A stop in which the polite request and then the fallback \<^verbatim>\<open>kill()\<close> both raise
  \<^verbatim>\<open>OSError\<close>, as \<^verbatim>\<open>os.kill\<close> does on a process of another user.
\<close>

definition refused_stop :: stop_environment where
  "refused_stop = \<lparr>graceful_stop = Some OSError, wait_two_seconds = None,
     kill_after_timeout = None, wait_after_kill = None, fallback_kill = Some OSError,
     fallback_wait = None, terminate_now = 0\<rparr>"

subsection \<open>What the queue hands out\<close>

text \<open>
  The text of the \<^verbatim>\<open>'output'\<close> items of a list of queue items, in order.
\<close>

fun outputs_of :: "queue_item list \<Rightarrow> string" where
  "outputs_of [] = []"
| "outputs_of (Output content # items) = content @ outputs_of items"
| "outputs_of (Completed content # items) = outputs_of items"
| "outputs_of (Error content # items) = outputs_of items"

text \<open>
  What successive \<^verbatim>\<open>get\<close> calls return, tick after tick, to a loop that keeps polling a
  queue that holds \<open>q\<close>: the item or \<open>None\<close> for \<^verbatim>\<open>queue.Empty\<close>, paired with the answer
  \<^verbatim>\<open>process.poll()\<close> has at that tick.
\<close>

fun queue_gets :: "queue_item list \<Rightarrow> tick list \<Rightarrow> (queue_item option \<times> int option) list" where
  "queue_gets q [] = []"
| "queue_gets q (t # ticks) =
     (case queue_get q (reader_puts t) of
        None \<Rightarrow> (None, process_poll t) # queue_gets [] ticks
      | Some (item, rest) \<Rightarrow> (Some item, process_poll t) # queue_gets rest ticks)"






text \<open>
  How the loop of read ends (lines 557 to 589), \<open>completed\<close> being the session's flag when
  the loop starts: a non-empty \<^verbatim>\<open>'output'\<close> item returns; an empty queue returns when the
  flag is set and continues otherwise.
\<close>

datatype wait_end =
  WaitDeadline | WaitOutput string | WaitCompleted "int option" | WaitError string
  | WaitFoundCompleted

fun end_of_wait :: "bool \<Rightarrow> (queue_item option \<times> int option) list \<Rightarrow> wait_end" where
  "end_of_wait completed [] = WaitDeadline"
| "end_of_wait completed ((Some (Output content), poll) # obs) =
     (if content \<noteq> [] then WaitOutput content else end_of_wait completed obs)"
| "end_of_wait completed ((Some (Completed content), poll) # obs) = WaitCompleted content"
| "end_of_wait completed ((Some (Error content), poll) # obs) = WaitError content"
| "end_of_wait completed ((None, poll) # obs) =
     (if completed then WaitFoundCompleted else end_of_wait completed obs)"

text \<open>
  The line \<^verbatim>\<open>hello\<close> with its newline; a spawn that fails; a command that prints the line
  and goes on running; a command that prints the line and exits with code 0, both items
  reaching the queue within the window; reads during which nothing arrives, and during
  which one more line arrives.
\<close>

definition hello_line :: string where
  "hello_line = ''hello'' @ [CHR 0x0A]"

definition world_line :: string where
  "world_line = ''world'' @ [CHR 0x0A]"

definition no_such_shell_env :: start_environment where
  "no_such_shell_env = \<lparr>popen = PopenRaises ''No such file or directory'', thread_start = None, started_thread = 0,
     creation_now = 0, start_ticks = []\<rparr>"

definition hello_running_env :: start_environment where
  "hello_running_env = \<lparr>popen = PopenReturns 0, thread_start = None, started_thread = 0, creation_now = 0,
     start_ticks = [\<lparr>reader_puts = [Output hello_line], process_poll = None\<rparr>]\<rparr>"

definition echo_hello_env :: start_environment where
  "echo_hello_env = \<lparr>popen = PopenReturns 0, thread_start = None, started_thread = 0, creation_now = 0,
     start_ticks = [\<lparr>reader_puts = [Output hello_line, Completed (Some 0)], process_poll = None\<rparr>,
                    \<lparr>reader_puts = [], process_poll = None\<rparr>]\<rparr>"

definition idle_read_env :: read_environment where
  "idle_read_env = \<lparr>read_ticks = [\<lparr>reader_puts = [], process_poll = None\<rparr>], move_now = 0,
     runtime_text = ''0.00''\<rparr>"

definition world_read_env :: read_environment where
  "world_read_env = \<lparr>read_ticks = [\<lparr>reader_puts = [Output world_line], process_poll = None\<rparr>],
     move_now = 0, runtime_text = ''0.00''\<rparr>"



text \<open>
  A start in whose window nothing reaches the queue while \<^verbatim>\<open>process.poll()\<close> reports the
  exit code 0.
\<close>

definition exit_seen_by_poll_env :: start_environment where
  "exit_seen_by_poll_env = \<lparr>popen = PopenReturns 0, thread_start = None, started_thread = 0, creation_now = 0,
     start_ticks = [\<lparr>reader_puts = [], process_poll = Some 0\<rparr>]\<rparr>"

text \<open>
  A start whose process is spawned but whose reader thread cannot be started: the
  \<^verbatim>\<open>RuntimeError\<close> that \<^verbatim>\<open>Thread.start\<close> raises when the system has no thread left.
\<close>

definition no_thread_env :: start_environment where
  "no_thread_env = \<lparr>popen = PopenReturns 0,
     thread_start = Some (''can'' @ [CHR 0x27] @ ''t start new thread''),
     started_thread = 0, creation_now = 0, start_ticks = []\<rparr>"

section \<open>Properties\<close>

subsection \<open>Timeouts that convert\<close>

lemma converts_to_float_code [code]:
  "converts_to_float i \<longleftrightarrow>
     \<bar>i\<bar> < 179769313486231580793728971405303415079934132710037826936173778980444968292764750946649017977587207096330286416692887910946555547851940402630657488671505820681908902000708383676273854845817711531764475730270069855571366959622842914819860834936475292719074168444365510704342711559699508093042880177904174497792"
  by (simp add: converts_to_float_def)

lemma converts_to_float_small: "\<bar>i\<bar> \<le> 2147483647 \<Longrightarrow> converts_to_float i"
  by (simp add: converts_to_float_def)

subsection \<open>Association lists\<close>

lemma length_update_new:
  "k \<notin> fst ` set al \<Longrightarrow> length (AList.update k v al) = Suc (length al)"
  by (induct al) auto

lemma length_update_old:
  "k \<in> fst ` set al \<Longrightarrow> length (AList.update k v al) = length al"
  by (induct al) auto

lemma length_delete_distinct:
  "distinct (map fst al) \<Longrightarrow> k \<in> fst ` set al \<Longrightarrow> Suc (length (AList.delete k al)) = length al"
  by (induct al) (auto simp: rev_image_eqI)

lemma keys_delete: "fst ` set (AList.delete k al) = fst ` set al - {k}"
  by (induct al) auto

lemma map_of_Some_key: "map_of al k = Some v \<Longrightarrow> k \<in> fst ` set al"
  by (metis domI dom_map_of_conv_image_fst)

lemma map_of_None_key: "map_of al k = None \<longleftrightarrow> k \<notin> fst ` set al"
  by (simp add: map_of_eq_None_iff)

lemma invariant_init: "registry_invariant init"
  by (simp add: registry_invariant_def init_def active_ids_def completed_ids_def)

lemma Min_key_in: "al \<noteq> [] \<Longrightarrow> Min (fst ` set al) \<in> fst ` set al"
  by (rule Min_in) auto

lemma length_keep_most_recent:
  assumes "distinct (map fst (completed_session_history m))"
    and "int (length (completed_session_history m)) \<le> maximum_completed_sessions_to_retain m + 1"
    and ne: "completed_session_history m \<noteq> []"
  shows "int (length (completed_session_history (keep_most_recent_completed m)))
           \<le> maximum_completed_sessions_to_retain m"
proof (cases "int (length (completed_session_history m)) > maximum_completed_sessions_to_retain m")
  case False
  then show ?thesis by (simp add: keep_most_recent_completed_def)
next
  case True
  let ?h = "completed_session_history m"
  from ne have "Min (fst ` set ?h) \<in> fst ` set ?h" by (rule Min_key_in)
  with assms(1) have "Suc (length (AList.delete (Min (fst ` set ?h)) ?h)) = length ?h"
    by (rule length_delete_distinct)
  with True assms(2) show ?thesis
    by (simp add: keep_most_recent_completed_def Let_def)
qed

lemma keep_most_recent_fields [simp]:
  "active_terminal_sessions (keep_most_recent_completed m) = active_terminal_sessions m"
  "next_session_id (keep_most_recent_completed m) = next_session_id m"
  "maximum_completed_sessions_to_retain (keep_most_recent_completed m)
     = maximum_completed_sessions_to_retain m"
  by (simp_all add: keep_most_recent_completed_def Let_def)

lemma keep_most_recent_ids: "completed_ids (keep_most_recent_completed m) \<subseteq> completed_ids m"
  by (auto simp: keep_most_recent_completed_def Let_def completed_ids_def keys_delete)

lemma keep_most_recent_distinct:
  "distinct (map fst (completed_session_history m)) \<Longrightarrow>
   distinct (map fst (completed_session_history (keep_most_recent_completed m)))"
  by (simp add: keep_most_recent_completed_def Let_def AList.distinct_delete)

lemma store_completed_fields [simp]:
  "active_terminal_sessions (store_completed_session m k s now) = active_terminal_sessions m"
  "next_session_id (store_completed_session m k s now) = next_session_id m"
  "maximum_completed_sessions_to_retain (store_completed_session m k s now)
     = maximum_completed_sessions_to_retain m"
  "completed_ids (store_completed_session m k s now) = insert k (completed_ids m)"
  by (simp_all add: store_completed_session_def Let_def completed_ids_def AList.dom_update)

lemma store_completed_distinct:
  "distinct (map fst (completed_session_history m)) \<Longrightarrow>
   distinct (map fst (completed_session_history (store_completed_session m k s now)))"
  by (simp add: store_completed_session_def Let_def AList.distinct_update)

lemma store_completed_length:
  "k \<notin> completed_ids m \<Longrightarrow>
   length (completed_session_history (store_completed_session m k s now))
     = Suc (length (completed_session_history m))"
  by (simp add: store_completed_session_def Let_def completed_ids_def length_update_new)

lemma remove_from_active_fields [simp]:
  "completed_session_history (remove_from_active m k) = completed_session_history m"
  "next_session_id (remove_from_active m k) = next_session_id m"
  "maximum_completed_sessions_to_retain (remove_from_active m k)
     = maximum_completed_sessions_to_retain m"
  "active_ids (remove_from_active m k) = active_ids m - {k}"
  "completed_ids (remove_from_active m k) = completed_ids m"
  by (simp_all add: remove_from_active_def active_ids_def completed_ids_def keys_delete)

lemma remove_from_active_distinct:
  "distinct (map fst (active_terminal_sessions m)) \<Longrightarrow>
   distinct (map fst (active_terminal_sessions (remove_from_active m k)))"
  by (simp add: remove_from_active_def AList.distinct_delete)

lemma invariant_move:
  assumes inv: "registry_invariant m"
  shows "registry_invariant (move_session_to_completed m session_id now)"
proof (cases "map_of (active_terminal_sessions m) session_id")
  case None
  then show ?thesis using inv by (simp add: move_session_to_completed_def)
next
  case (Some session)
  let ?m1 = "store_completed_session m session_id session now"
  let ?m2 = "keep_most_recent_completed ?m1"
  let ?m3 = "remove_from_active ?m2 session_id"
  have mv: "move_session_to_completed m session_id now = ?m3"
    using Some by (simp add: move_session_to_completed_def)
  from Some have k: "session_id \<in> active_ids m"
    unfolding active_ids_def by (rule map_of_Some_key)
  with inv have nk: "session_id \<notin> completed_ids m"
    by (auto simp: registry_invariant_def)
  have d1: "distinct (map fst (completed_session_history ?m1))"
    using inv by (simp add: registry_invariant_def store_completed_distinct)
  have l1: "int (length (completed_session_history ?m1))
              \<le> maximum_completed_sessions_to_retain ?m1 + 1"
    using inv nk by (simp add: registry_invariant_def store_completed_length)
  have ne1: "completed_session_history ?m1 \<noteq> []"
    by (simp add: store_completed_session_def)
  have l2: "int (length (completed_session_history ?m2))
              \<le> maximum_completed_sessions_to_retain m"
    using length_keep_most_recent[OF d1 l1 ne1] by simp
  have d2: "distinct (map fst (completed_session_history ?m2))"
    using d1 by (rule keep_most_recent_distinct)
  have ids2: "completed_ids ?m2 \<subseteq> insert session_id (completed_ids m)"
    using keep_most_recent_ids[of ?m1] by simp
  have a2: "active_ids ?m2 = active_ids m"
    by (simp add: active_ids_def)
  have da: "distinct (map fst (active_terminal_sessions ?m3))"
    using inv by (intro remove_from_active_distinct) (simp add: registry_invariant_def)
  have "registry_invariant ?m3"
    unfolding registry_invariant_def
  proof (intro conjI)
    show "distinct (map fst (active_terminal_sessions ?m3))" by (rule da)
    show "distinct (map fst (completed_session_history ?m3))" using d2 by simp
    show "\<forall>k\<in>active_ids ?m3 \<union> completed_ids ?m3. k < next_session_id ?m3"
      using inv ids2 a2 k by (auto simp: registry_invariant_def)
    show "active_ids ?m3 \<inter> completed_ids ?m3 = {}"
      using inv ids2 a2 by (auto simp: registry_invariant_def)
    show "int (length (completed_session_history ?m3))
            \<le> maximum_completed_sessions_to_retain ?m3"
      using l2 by simp
  qed
  with mv show ?thesis by simp
qed

lemma invariant_update_active:
  assumes "registry_invariant m" and "k \<in> active_ids m"
  shows "registry_invariant
           (m\<lparr>active_terminal_sessions := AList.update k s (active_terminal_sessions m)\<rparr>)"
proof -
  have "fst ` set (AList.update k s (active_terminal_sessions m)) = active_ids m"
    using assms(2) by (auto simp: active_ids_def AList.dom_update)
  then show ?thesis
    using assms(1)
    by (simp add: registry_invariant_def active_ids_def completed_ids_def AList.distinct_update)
qed

lemma invariant_register:
  assumes "registry_invariant m"
  shows "registry_invariant
           (m\<lparr>next_session_id := next_session_id m + 1,
              active_terminal_sessions :=
                AList.update (next_session_id m) s (active_terminal_sessions m)\<rparr>)"
proof -
  let ?n = "next_session_id m"
  have nc: "?n \<notin> completed_ids m"
    using assms by (force simp: registry_invariant_def)
  have keys: "fst ` set (AList.update ?n s (active_terminal_sessions m)) = insert ?n (active_ids m)"
    by (simp add: active_ids_def AList.dom_update)
  have b0: "k < ?n" if "k \<in> active_ids m \<union> completed_ids m" for k
    using assms that by (simp add: registry_invariant_def)
  have bound: "\<forall>k \<in> insert ?n (active_ids m) \<union> completed_ids m. k < ?n + 1"
  proof
    fix k
    assume "k \<in> insert ?n (active_ids m) \<union> completed_ids m"
    then have "k = ?n \<or> k \<in> active_ids m \<union> completed_ids m" by auto
    then show "k < ?n + 1" using b0 by fastforce
  qed
  have disj: "insert ?n (active_ids m) \<inter> completed_ids m = {}"
    using assms nc by (auto simp: registry_invariant_def)
  have d: "distinct (map fst (AList.update ?n s (active_terminal_sessions m)))"
    using assms by (simp add: registry_invariant_def AList.distinct_update)
  show ?thesis
    unfolding registry_invariant_def active_ids_def[of "m\<lparr>next_session_id := _, active_terminal_sessions := _\<rparr>"]
      completed_ids_def[of "m\<lparr>next_session_id := _, active_terminal_sessions := _\<rparr>"]
    using assms keys bound disj d
    by (simp add: registry_invariant_def completed_ids_def)
qed

lemma start_manager_cases:
  "fst (start_command_execution_with_timeout_and_background_support m c t sh env) = m \<or>
   fst (start_command_execution_with_timeout_and_background_support m c t sh env)
     = m\<lparr>next_session_id := next_session_id m + 1\<rparr> \<or>
   (\<exists>s'. fst (start_command_execution_with_timeout_and_background_support m c t sh env)
           = m\<lparr>next_session_id := next_session_id m + 1,
               active_terminal_sessions :=
                 AList.update (next_session_id m) s' (active_terminal_sessions m)\<rparr>)"
proof (cases "popen env")
  case (PopenRaises e)
  then show ?thesis
    by (simp add: start_command_execution_with_timeout_and_background_support_def)
next
  case (PopenReturns handle)
  show ?thesis
  proof (cases "thread_start env")
    case (Some e)
    with PopenReturns show ?thesis
      by (simp add: start_command_execution_with_timeout_and_background_support_def Let_def)
  next
    case None
    show ?thesis
    proof (cases "converts_to_float t")
      case False
      with PopenReturns None
      have "fst (start_command_execution_with_timeout_and_background_support m c t sh env)
           = m\<lparr>next_session_id := next_session_id m + 1,
               active_terminal_sessions :=
                 AList.update (next_session_id m)
                   \<lparr>process_id = next_session_id m, process = handle,
                    accumulated_output_buffer = '''',
                    newly_available_output_since_last_read = '''',
                    command_execution_has_completed = False,
                    session_creation_timestamp = creation_now env,
                    output_reading_thread = Some (started_thread env),
                    output_queue = [], last_exit_code = None\<rparr>
                   (active_terminal_sessions m)\<rparr>"
        by (simp add: start_command_execution_with_timeout_and_background_support_def Let_def)
      then show ?thesis by blast
    next
      case True
      obtain s' out err where c: "collect_initial_output
          (ticks_before_deadline t (start_ticks env))
          \<lparr>process_id = next_session_id m, process = handle,
           accumulated_output_buffer = '''', newly_available_output_since_last_read = '''',
           command_execution_has_completed = False,
           session_creation_timestamp = creation_now env,
           output_reading_thread = Some (started_thread env),
           output_queue = [], last_exit_code = None\<rparr> '''' = (s', out, err)"
        by (metis prod_cases3)
      have "fst (start_command_execution_with_timeout_and_background_support m c t sh env)
              = m\<lparr>next_session_id := next_session_id m + 1,
                   active_terminal_sessions :=
                     AList.update (next_session_id m) s' (active_terminal_sessions m)\<rparr>"
        using PopenReturns None True c
        by (cases err)
          (simp_all add: start_command_execution_with_timeout_and_background_support_def Let_def)
      then show ?thesis by blast
    qed
  qed
qed

lemma invariant_counter:
  assumes "registry_invariant m"
  shows "registry_invariant (m\<lparr>next_session_id := next_session_id m + 1\<rparr>)"
proof -
  have "k < next_session_id m + 1" if "k \<in> active_ids m \<union> completed_ids m" for k
  proof -
    from assms that have "k < next_session_id m" by (simp add: registry_invariant_def)
    then show ?thesis by simp
  qed
  then show ?thesis
    using assms by (simp add: registry_invariant_def active_ids_def completed_ids_def)
qed

lemma invariant_start:
  assumes "registry_invariant m"
  shows "registry_invariant
           (fst (start_command_execution_with_timeout_and_background_support m c t sh env))"
  using start_manager_cases[of m c t sh env] assms invariant_counter[OF assms]
    invariant_register[OF assms]
  by (elim disjE exE) simp_all

lemma read_manager_cases:
  assumes "map_of (active_terminal_sessions m) k = Some session"
  shows "\<exists>s'. fst (read_new_output_from_session_with_timeout m k t env)
             = m\<lparr>active_terminal_sessions := AList.update k s' (active_terminal_sessions m)\<rparr>
           \<or> fst (read_new_output_from_session_with_timeout m k t env)
             = move_session_to_completed
                 (m\<lparr>active_terminal_sessions := AList.update k s' (active_terminal_sessions m)\<rparr>)
                 k (move_now env)"
proof (cases "newly_available_output_since_last_read session \<noteq> ''''")
  case True
  then have "fst (read_new_output_from_session_with_timeout m k t env)
      = m\<lparr>active_terminal_sessions := AList.update k
            (session\<lparr>newly_available_output_since_last_read := ''''\<rparr>)
            (active_terminal_sessions m)\<rparr>"
    using assms by (simp add: read_new_output_from_session_with_timeout_def)
  then show ?thesis by blast
next
  case False
  obtain s' ex where w: "wait_for_new_output (ticks_before_deadline t (read_ticks env))
      session '''' = (s', ex)"
    by (metis surj_pair)
  have "fst (read_new_output_from_session_with_timeout m k t env)
             = m\<lparr>active_terminal_sessions := AList.update k s' (active_terminal_sessions m)\<rparr>
           \<or> fst (read_new_output_from_session_with_timeout m k t env)
             = move_session_to_completed
                 (m\<lparr>active_terminal_sessions := AList.update k s' (active_terminal_sessions m)\<rparr>)
                 k (move_now env)"
    using assms False w
    by (cases ex) (simp_all add: read_new_output_from_session_with_timeout_def Let_def)
  then show ?thesis by blast
qed

lemma invariant_read:
  assumes "registry_invariant m"
  shows "registry_invariant (fst (read_new_output_from_session_with_timeout m k t env))"
proof (cases "map_of (active_terminal_sessions m) k")
  case None
  then show ?thesis
    using assms
    by (cases "map_of (completed_session_history m) k")
      (simp_all add: read_new_output_from_session_with_timeout_def)
next
  case (Some session)
  then have k: "k \<in> active_ids m"
    unfolding active_ids_def by (rule map_of_Some_key)
  from read_manager_cases[OF Some] obtain s' where
    "fst (read_new_output_from_session_with_timeout m k t env)
             = m\<lparr>active_terminal_sessions := AList.update k s' (active_terminal_sessions m)\<rparr>
           \<or> fst (read_new_output_from_session_with_timeout m k t env)
             = move_session_to_completed
                 (m\<lparr>active_terminal_sessions := AList.update k s' (active_terminal_sessions m)\<rparr>)
                 k (move_now env)"
    by blast
  then show ?thesis
    using invariant_update_active[OF assms k, of s']
      invariant_move[OF invariant_update_active[OF assms k, of s'], of k "move_now env"]
    by auto
qed

lemma invariant_terminate:
  assumes "registry_invariant m"
  shows "registry_invariant (fst (force_terminate_session_with_cleanup m k env))"
proof (cases "map_of (active_terminal_sessions m) k")
  case None
  then show ?thesis using assms by (simp add: force_terminate_session_with_cleanup_def)
next
  case (Some session)
  then show ?thesis
    using assms invariant_move[OF assms, of k "terminate_now env"]
    by (cases "stop_process env") (simp_all add: force_terminate_session_with_cleanup_def)
qed

lemma invariant_apply_operation:
  "registry_invariant m \<Longrightarrow> registry_invariant (apply_operation m operation)"
  by (cases operation) (simp_all add: invariant_start invariant_read invariant_terminate)

lemma invariant_foldl:
  "registry_invariant m \<Longrightarrow> registry_invariant (foldl apply_operation m ops)"
  by (induction ops arbitrary: m) (simp_all add: invariant_apply_operation)

lemma invariant_run: "registry_invariant (run ops)"
  unfolding run_def by (rule invariant_foldl) (rule invariant_init)

lemma update_new_append:
  "k \<notin> fst ` set al \<Longrightarrow> AList.update k v al = al @ [(k, v)]"
  by (induct al) auto

lemma move_fields [simp]:
  "next_session_id (move_session_to_completed m k now) = next_session_id m"
  "maximum_completed_sessions_to_retain (move_session_to_completed m k now)
     = maximum_completed_sessions_to_retain m"
  by (cases "map_of (active_terminal_sessions m) k";
      simp add: move_session_to_completed_def)+

lemma maximum_apply_operation:
  "maximum_completed_sessions_to_retain (apply_operation m operation)
     = maximum_completed_sessions_to_retain m"
proof (cases operation)
  case (Start c t sh env)
  from start_manager_cases[of m c t sh env] show ?thesis
    unfolding Start by (elim disjE exE) simp_all
next
  case (Read k t env)
  show ?thesis
  proof (cases "read_raises_overflow_error m k t")
    case True
    with Read True show ?thesis by simp
  next
    case returns: False
    show ?thesis
    proof (cases "map_of (active_terminal_sessions m) k")
      case None
      with Read returns show ?thesis
        by (cases "map_of (completed_session_history m) k")
          (simp_all add: read_new_output_from_session_with_timeout_def)
    next
      case (Some session)
      from read_manager_cases[OF this, of t env] Read returns show ?thesis by auto
    qed
  qed
next
  case (Terminate k env)
  then show ?thesis
    by (cases "map_of (active_terminal_sessions m) k"; cases "stop_process env")
      (simp_all add: force_terminate_session_with_cleanup_def)
next
  case (ListSessions x)
  then show ?thesis by simp
qed

lemma maximum_foldl:
  "maximum_completed_sessions_to_retain (foldl apply_operation m ops)
     = maximum_completed_sessions_to_retain m"
  by (induction ops arbitrary: m) (simp_all add: maximum_apply_operation)

lemma maximum_run: "maximum_completed_sessions_to_retain (run ops) = 100"
  by (simp add: run_def maximum_foldl init_def)

lemma length_history_run: "length (completed_session_history (run ops)) \<le> 100"
  using invariant_run[of ops] maximum_run[of ops] by (simp add: registry_invariant_def)

lemma move_history:
  assumes inv: "registry_invariant m"
    and act: "map_of (active_terminal_sessions m) session_id = Some session"
  shows "completed_session_history (move_session_to_completed m session_id now) =
     (let h = completed_session_history m @
                [(session_id, \<lparr>completed_process_id = session_id,
                   complete_output_text = accumulated_output_buffer session,
                   final_exit_code = last_exit_code session,
                   session_start_time = session_creation_timestamp session,
                   session_end_time = now\<rparr>)]
      in if int (length h) > maximum_completed_sessions_to_retain m
         then AList.delete (Min (fst ` set h)) h else h)"
proof -
  from act have "session_id \<in> active_ids m"
    unfolding active_ids_def by (rule map_of_Some_key)
  with inv have "session_id \<notin> fst ` set (completed_session_history m)"
    by (auto simp: registry_invariant_def completed_ids_def)
  then show ?thesis
    using act
    by (simp add: move_session_to_completed_def store_completed_session_def
        keep_most_recent_completed_def remove_from_active_def Let_def update_new_append)
qed

lemma active_ids_move:
  "active_ids (move_session_to_completed m k now) = active_ids m - {k}"
proof (cases "map_of (active_terminal_sessions m) k")
  case None
  then have "k \<notin> active_ids m" by (simp add: active_ids_def map_of_None_key)
  with None show ?thesis by (simp add: move_session_to_completed_def)
next
  case (Some session)
  then show ?thesis
    by (simp add: move_session_to_completed_def) (simp add: active_ids_def)
qed

lemma active_ids_update_present:
  "k \<in> active_ids m \<Longrightarrow>
   active_ids (m\<lparr>active_terminal_sessions := AList.update k s (active_terminal_sessions m)\<rparr>)
     = active_ids m"
  by (auto simp: active_ids_def AList.dom_update)

lemma apply_operation_ids:
  "active_ids (apply_operation m operation) \<subseteq> insert (next_session_id m) (active_ids m) \<and>
   next_session_id m \<le> next_session_id (apply_operation m operation)"
proof (cases operation)
  case (Start c t sh env)
  from start_manager_cases[of m c t sh env]
  consider "apply_operation m operation = m"
    | "apply_operation m operation = m\<lparr>next_session_id := next_session_id m + 1\<rparr>"
    | s' where "apply_operation m operation
         = m\<lparr>next_session_id := next_session_id m + 1,
             active_terminal_sessions :=
               AList.update (next_session_id m) s' (active_terminal_sessions m)\<rparr>"
    unfolding Start by auto
  then show ?thesis
  proof cases
    case 1
    then show ?thesis by auto
  next
    case 2
    then show ?thesis by (auto simp: active_ids_def)
  next
    case e: 3
    have "active_ids (apply_operation m operation) = insert (next_session_id m) (active_ids m)"
      unfolding e by (simp add: active_ids_def AList.dom_update)
    moreover have "next_session_id (apply_operation m operation) = next_session_id m + 1"
      unfolding e by simp
    ultimately show ?thesis by simp
  qed
next
  case (Read k t env)
  show ?thesis
  proof (cases "read_raises_overflow_error m k t")
    case True
    with Read True show ?thesis by auto
  next
    case returns: False
    show ?thesis
    proof (cases "map_of (active_terminal_sessions m) k")
      case None
      with Read returns show ?thesis
        by (cases "map_of (completed_session_history m) k")
          (auto simp add: read_new_output_from_session_with_timeout_def)
    next
      case (Some session)
      then have k: "k \<in> active_ids m"
        unfolding active_ids_def by (rule map_of_Some_key)
      from read_manager_cases[OF Some, of t env] obtain s' where
        "apply_operation m operation
           = m\<lparr>active_terminal_sessions := AList.update k s' (active_terminal_sessions m)\<rparr>
         \<or> apply_operation m operation
           = move_session_to_completed
               (m\<lparr>active_terminal_sessions := AList.update k s' (active_terminal_sessions m)\<rparr>)
               k (move_now env)"
        using Read returns by auto
      then show ?thesis
        using active_ids_update_present[OF k, of s']
        by (auto simp: active_ids_move)
    qed
  qed
next
  case (Terminate k env)
  then show ?thesis
    by (cases "map_of (active_terminal_sessions m) k"; cases "stop_process env")
      (auto simp add: force_terminate_session_with_cleanup_def active_ids_move)
next
  case (ListSessions x)
  then show ?thesis by auto
qed

lemma retired_id_stays_retired:
  "k < next_session_id m \<Longrightarrow> k \<notin> active_ids m \<Longrightarrow>
   k < next_session_id (foldl apply_operation m ops) \<and>
   k \<notin> active_ids (foldl apply_operation m ops)"
proof (induction ops arbitrary: m)
  case Nil
  then show ?case by simp
next
  case (Cons operation ops)
  from apply_operation_ids[of m operation] Cons.prems
  have "k < next_session_id (apply_operation m operation)"
    and "k \<notin> active_ids (apply_operation m operation)"
    by auto
  from Cons.IH[OF this] show ?case by simp
qed

lemma terminate_not_active:
  "session_id \<notin> active_ids m \<Longrightarrow>
   force_terminate_session_with_cleanup m session_id env = (m, False)"
  by (simp add: force_terminate_session_with_cleanup_def active_ids_def
      map_of_None_key[symmetric])

subsection \<open>The bound of the completed history\<close>

text \<open>
  C3. After every sequence of calls the completed history holds at most 100 entries.
  Storing one more completed session appends it; when the history already holds 100, the
  entry with the least id among the 101 is deleted, the history holds 100 again, and its
  ids are the 101 without the least.
\<close>

theorem history_bounded_and_lowest_id_evicted:
  "length (completed_session_history (run ops)) \<le> 100 \<and>
   (\<forall>session_id session now.
      map_of (active_terminal_sessions (run ops)) session_id = Some session \<longrightarrow>
      (let h = completed_session_history (run ops);
           stored = h @ [(session_id,
                     \<lparr>completed_process_id = session_id,
                      complete_output_text = accumulated_output_buffer session,
                      final_exit_code = last_exit_code session,
                      session_start_time = session_creation_timestamp session,
                      session_end_time = now\<rparr>)];
           h' = completed_session_history (move_session_to_completed (run ops) session_id now)
       in if length h < 100 then h' = stored
          else h' = AList.delete (Min (insert session_id (fst ` set h))) stored \<and>
               length h' = 100 \<and>
               fst ` set h' = insert session_id (fst ` set h)
                               - {Min (insert session_id (fst ` set h))}))"
proof (intro conjI allI impI)
  show "length (completed_session_history (run ops)) \<le> 100" by (rule length_history_run)
next
  fix session_id session now
  assume act: "map_of (active_terminal_sessions (run ops)) session_id = Some session"
  let ?m = "run ops"
  let ?h = "completed_session_history ?m"
  let ?c = "\<lparr>completed_process_id = session_id,
                      complete_output_text = accumulated_output_buffer session,
                      final_exit_code = last_exit_code session,
                      session_start_time = session_creation_timestamp session,
                      session_end_time = now\<rparr>"
  let ?stored = "?h @ [(session_id, ?c)]"
  let ?h' = "completed_session_history (move_session_to_completed ?m session_id now)"
  have mh: "?h' = (if int (length ?stored) > 100
                   then AList.delete (Min (fst ` set ?stored)) ?stored else ?stored)"
    using move_history[OF invariant_run act, of now] by (simp add: maximum_run Let_def)
  have keys: "fst ` set ?stored = insert session_id (fst ` set ?h)" by auto
  have le: "length ?h \<le> 100" by (rule length_history_run)
  have inv': "registry_invariant (move_session_to_completed ?m session_id now)"
    by (rule invariant_move) (rule invariant_run)
  show "let h = ?h; stored = h @ [(session_id, ?c)]; h' = ?h'
       in if length h < 100 then h' = stored
          else h' = AList.delete (Min (insert session_id (fst ` set h))) stored \<and>
               length h' = 100 \<and>
               fst ` set h' = insert session_id (fst ` set h)
                               - {Min (insert session_id (fst ` set h))}"
  proof (cases "length ?h < 100")
    case True
    with mh show ?thesis by (simp add: Let_def)
  next
    case False
    with le have l: "length ?h = 100" by simp
    with mh have e: "?h' = AList.delete (Min (insert session_id (fst ` set ?h))) ?stored"
      by (simp only: keys) simp
    from act have "session_id \<in> active_ids ?m"
      unfolding active_ids_def by (rule map_of_Some_key)
    with invariant_run[of ops] have nk: "session_id \<notin> fst ` set ?h"
      by (auto simp: registry_invariant_def completed_ids_def)
    have d: "distinct (map fst ?stored)"
      using invariant_run[of ops] nk by (simp add: registry_invariant_def)
    have "Min (fst ` set ?stored) \<in> fst ` set ?stored"
      by (rule Min_key_in) simp
    from length_delete_distinct[OF d this] l
    have len: "length ?h' = 100" using e keys by simp
    have ids: "fst ` set ?h' = insert session_id (fst ` set ?h)
                               - {Min (insert session_id (fst ` set ?h))}"
      using e keys by (simp only: keys_delete) 
    from e len ids l show ?thesis by (simp add: Let_def)
  qed
qed

lemma map_of_append_new:
  "k \<notin> fst ` set al \<Longrightarrow> map_of (al @ [(k, v)]) k = Some v"
  by (induct al) auto

lemma move_keeps_or_evicts:
  assumes act: "map_of (active_terminal_sessions (run ops)) session_id = Some session"
  shows "map_of (completed_session_history
                   (move_session_to_completed (run ops) session_id now)) session_id
           = Some \<lparr>completed_process_id = session_id,
                   complete_output_text = accumulated_output_buffer session,
                   final_exit_code = last_exit_code session,
                   session_start_time = session_creation_timestamp session,
                   session_end_time = now\<rparr>
         \<or> (length (completed_session_history (run ops)) = 100 \<and>
            (\<forall>k \<in> completed_ids (run ops). session_id < k))"
proof -
  let ?m = "run ops"
  let ?h = "completed_session_history ?m"
  let ?c = "\<lparr>completed_process_id = session_id,
                   complete_output_text = accumulated_output_buffer session,
                   final_exit_code = last_exit_code session,
                   session_start_time = session_creation_timestamp session,
                   session_end_time = now\<rparr>"
  let ?stored = "?h @ [(session_id, ?c)]"
  let ?h' = "completed_session_history (move_session_to_completed ?m session_id now)"
  let ?low = "Min (insert session_id (fst ` set ?h))"
  have mh: "?h' = (if int (length ?stored) > 100
                   then AList.delete (Min (fst ` set ?stored)) ?stored else ?stored)"
    using move_history[OF invariant_run act, of now] by (simp add: maximum_run Let_def)
  from act have "session_id \<in> active_ids ?m"
    unfolding active_ids_def by (rule map_of_Some_key)
  with invariant_run[of ops] have nk: "session_id \<notin> fst ` set ?h"
    by (auto simp: registry_invariant_def completed_ids_def)
  have st: "map_of ?stored session_id = Some ?c"
    using nk by (rule map_of_append_new)
  have le: "length ?h \<le> 100" by (rule length_history_run)
  have keys: "fst ` set ?stored = insert session_id (fst ` set ?h)" by auto
  show ?thesis
  proof (cases "length ?h < 100")
    case True
    with mh st show ?thesis by simp
  next
    case False
    with le have l: "length ?h = 100" by simp
    with mh have e: "?h' = AList.delete ?low ?stored"
      by (simp only: keys) simp
    show ?thesis
    proof (cases "?low = session_id")
      case True
      have "session_id < k" if "k \<in> fst ` set ?h" for k
      proof -
        have "?low \<le> k" using that by (intro Min_le) auto
        with True nk that show ?thesis by (cases "session_id = k") auto
      qed
      with l show ?thesis by (simp add: completed_ids_def)
    next
      case False
      then have "map_of ?h' session_id = Some ?c"
        unfolding e using st by (simp only: AList.delete_conv) simp
      then show ?thesis by simp
    qed
  qed
qed

subsection \<open>terminate\<close>

text \<open>
  C7, as amended. In every state a sequence of calls can reach: terminate on an id that is
  not in the active map returns \<open>False\<close> and changes nothing; on an active id, when one of
  the calls on the process raises out of the handlers, it returns \<open>False\<close> and changes
  nothing; when none does, it returns \<open>True\<close> and moves the session: the id leaves the
  active map, its completed session is in the history unless the history was full and the
  id is the least of all (then it is the entry deleted), and after any further calls
  terminate on that id returns \<open>False\<close> and changes nothing.
\<close>

theorem terminate_idempotent_in_effect:
  "(session_id \<notin> active_ids (run ops) \<longrightarrow>
      force_terminate_session_with_cleanup (run ops) session_id env = (run ops, False)) \<and>
   (session_id \<in> active_ids (run ops) \<and> stop_process env \<noteq> None \<longrightarrow>
      force_terminate_session_with_cleanup (run ops) session_id env = (run ops, False)) \<and>
   (\<forall>session. map_of (active_terminal_sessions (run ops)) session_id = Some session \<and>
      stop_process env = None \<longrightarrow>
      force_terminate_session_with_cleanup (run ops) session_id env
        = (move_session_to_completed (run ops) session_id (terminate_now env), True) \<and>
      session_id \<notin> active_ids (move_session_to_completed (run ops) session_id (terminate_now env)) \<and>
      (map_of (completed_session_history
                 (move_session_to_completed (run ops) session_id (terminate_now env))) session_id
         = Some \<lparr>completed_process_id = session_id,
                 complete_output_text = accumulated_output_buffer session,
                 final_exit_code = last_exit_code session,
                 session_start_time = session_creation_timestamp session,
                 session_end_time = terminate_now env\<rparr>
       \<or> (length (completed_session_history (run ops)) = 100 \<and>
          (\<forall>k \<in> completed_ids (run ops). session_id < k))) \<and>
      (\<forall>later env'.
         force_terminate_session_with_cleanup
           (foldl apply_operation
              (move_session_to_completed (run ops) session_id (terminate_now env)) later)
           session_id env'
         = (foldl apply_operation
              (move_session_to_completed (run ops) session_id (terminate_now env)) later,
            False)))"
proof (intro conjI allI impI)
  assume "session_id \<notin> active_ids (run ops)"
  then show "force_terminate_session_with_cleanup (run ops) session_id env = (run ops, False)"
    by (rule terminate_not_active)
next
  assume "session_id \<in> active_ids (run ops) \<and> stop_process env \<noteq> None"
  then show "force_terminate_session_with_cleanup (run ops) session_id env = (run ops, False)"
    by (cases "map_of (active_terminal_sessions (run ops)) session_id")
      (auto simp: force_terminate_session_with_cleanup_def)
next
  fix session
  assume a: "map_of (active_terminal_sessions (run ops)) session_id = Some session \<and>
      stop_process env = None"
  then show "force_terminate_session_with_cleanup (run ops) session_id env
        = (move_session_to_completed (run ops) session_id (terminate_now env), True)"
    by (simp add: force_terminate_session_with_cleanup_def)
  show "session_id \<notin> active_ids (move_session_to_completed (run ops) session_id (terminate_now env))"
    by (simp add: active_ids_move)
  from a show "map_of (completed_session_history
                 (move_session_to_completed (run ops) session_id (terminate_now env))) session_id
         = Some \<lparr>completed_process_id = session_id,
                 complete_output_text = accumulated_output_buffer session,
                 final_exit_code = last_exit_code session,
                 session_start_time = session_creation_timestamp session,
                 session_end_time = terminate_now env\<rparr>
       \<or> (length (completed_session_history (run ops)) = 100 \<and>
          (\<forall>k \<in> completed_ids (run ops). session_id < k))"
    using move_keeps_or_evicts[of ops session_id session "terminate_now env"] by simp
next
  fix session later env'
  assume a: "map_of (active_terminal_sessions (run ops)) session_id = Some session \<and>
      stop_process env = None"
  let ?m' = "move_session_to_completed (run ops) session_id (terminate_now env)"
  from a have "session_id \<in> active_ids (run ops)"
    unfolding active_ids_def by (intro map_of_Some_key) simp
  with invariant_run[of ops] have "session_id < next_session_id (run ops)"
    by (simp add: registry_invariant_def)
  then have lt: "session_id < next_session_id ?m'" by simp
  have na: "session_id \<notin> active_ids ?m'" by (simp add: active_ids_move)
  from retired_id_stays_retired[OF lt na, of later]
  show "force_terminate_session_with_cleanup (foldl apply_operation ?m' later) session_id env'
         = (foldl apply_operation ?m' later, False)"
    by (intro terminate_not_active) simp
qed

text \<open>
  C7 as stated fails: session 1 is active, both the polite request and the fallback
  \<^verbatim>\<open>kill()\<close> raise \<^verbatim>\<open>OSError\<close>, and the first terminate returns \<open>False\<close> with the session
  still active.
\<close>

theorem terminate_refused_counterexample:
  "1 \<in> active_ids (run [quiet_start]) \<and>
   force_terminate_session_with_cleanup (run [quiet_start]) 1 refused_stop
     = (run [quiet_start], False)"
  by (simp add: run_def quiet_start_def init_def refused_stop_def active_ids_def
      start_command_execution_with_timeout_and_background_support_def converts_to_float_small
      ticks_before_deadline_def force_terminate_session_with_cleanup_def stop_process_def)

subsection \<open>read on an unknown id\<close>

text \<open>
  C8. When the id is in neither dictionary, read returns the text
  \<open>No session found for ID\<close> followed by the id, with \<open>timeout_reached\<close> false and the
  manager unchanged, whatever the timeout and whatever the ticks: the polling loop is not
  entered, so no \<^verbatim>\<open>get\<close> is waited for.
\<close>
theorem read_unknown_session:
  "map_of (active_terminal_sessions m) session_id = None \<Longrightarrow>
   map_of (completed_session_history m) session_id = None \<Longrightarrow>
   read_new_output_from_session_with_timeout m session_id timeout_milliseconds env
     = (m, ''No session found for ID '' @ str_int session_id, False)"
  by (simp add: read_new_output_from_session_with_timeout_def)

lemma wait_keeps_pending:
  "newly_available_output_since_last_read (fst (wait_for_new_output ticks session new_output))
     = newly_available_output_since_last_read session"
proof (induction ticks arbitrary: session new_output)
  case Nil
  then show ?case by simp
next
  case (Cons t ticks)
  show ?case
  proof (cases "queue_get (output_queue session) (reader_puts t)")
    case None
    with Cons.IH show ?thesis by simp
  next
    case (Some got)
    obtain item q where got: "got = (item, q)" by (cases got)
    show ?thesis
      using Some got Cons.IH by (cases item) (simp_all add: Let_def)
  qed
qed

lemma read_active_session:
  assumes "map_of (active_terminal_sessions m) k = Some session"
  shows "\<exists>s'. newly_available_output_since_last_read s' = [] \<and>
           (fst (read_new_output_from_session_with_timeout m k t env)
             = m\<lparr>active_terminal_sessions := AList.update k s' (active_terminal_sessions m)\<rparr>
           \<or> fst (read_new_output_from_session_with_timeout m k t env)
             = move_session_to_completed
                 (m\<lparr>active_terminal_sessions := AList.update k s' (active_terminal_sessions m)\<rparr>)
                 k (move_now env))"
proof (cases "newly_available_output_since_last_read session \<noteq> ''''")
  case True
  then have "fst (read_new_output_from_session_with_timeout m k t env)
      = m\<lparr>active_terminal_sessions := AList.update k
            (session\<lparr>newly_available_output_since_last_read := ''''\<rparr>)
            (active_terminal_sessions m)\<rparr>"
    using assms by (simp add: read_new_output_from_session_with_timeout_def)
  moreover have "newly_available_output_since_last_read
      (session\<lparr>newly_available_output_since_last_read := ''''\<rparr>) = []" by simp
  ultimately show ?thesis by blast
next
  case False
  obtain s' ex where w: "wait_for_new_output (ticks_before_deadline t (read_ticks env))
      session '''' = (s', ex)"
    by (metis surj_pair)
  have p: "newly_available_output_since_last_read s' = []"
    using wait_keeps_pending[of "ticks_before_deadline t (read_ticks env)" session "''''"]
      w False by simp
  have "fst (read_new_output_from_session_with_timeout m k t env)
             = m\<lparr>active_terminal_sessions := AList.update k s' (active_terminal_sessions m)\<rparr>
           \<or> fst (read_new_output_from_session_with_timeout m k t env)
             = move_session_to_completed
                 (m\<lparr>active_terminal_sessions := AList.update k s' (active_terminal_sessions m)\<rparr>)
                 k (move_now env)"
    using assms False w
    by (cases ex) (simp_all add: read_new_output_from_session_with_timeout_def Let_def)
  with p show ?thesis by blast
qed

lemma map_of_active_move:
  "map_of (active_terminal_sessions (move_session_to_completed m k now)) j
     = (if j = k then None else map_of (active_terminal_sessions m) j)"
proof (cases "map_of (active_terminal_sessions m) k")
  case None
  then show ?thesis by (auto simp add: move_session_to_completed_def)
next
  case (Some session)
  then show ?thesis
    by (simp add: move_session_to_completed_def) (simp add: remove_from_active_def AList.delete_conv)
qed

lemma read_sessions_after:
  assumes "map_of (active_terminal_sessions m) k = Some session"
    and "map_of (active_terminal_sessions
           (fst (read_new_output_from_session_with_timeout m k t env))) j = Some s'"
  shows "if j = k then newly_available_output_since_last_read s' = []
         else map_of (active_terminal_sessions m) j = Some s'"
proof -
  from read_active_session[OF assms(1), of t env] obtain s1 where
    p: "newly_available_output_since_last_read s1 = []" and
    c: "fst (read_new_output_from_session_with_timeout m k t env)
             = m\<lparr>active_terminal_sessions := AList.update k s1 (active_terminal_sessions m)\<rparr>
           \<or> fst (read_new_output_from_session_with_timeout m k t env)
             = move_session_to_completed
                 (m\<lparr>active_terminal_sessions := AList.update k s1 (active_terminal_sessions m)\<rparr>)
                 k (move_now env)"
    by blast
  from c show ?thesis
  proof
    assume "fst (read_new_output_from_session_with_timeout m k t env)
             = m\<lparr>active_terminal_sessions := AList.update k s1 (active_terminal_sessions m)\<rparr>"
    with assms(2) p show ?thesis by (auto simp: AList.update_conv')
  next
    assume "fst (read_new_output_from_session_with_timeout m k t env)
             = move_session_to_completed
                 (m\<lparr>active_terminal_sessions := AList.update k s1 (active_terminal_sessions m)\<rparr>)
                 k (move_now env)"
    with assms(2) p show ?thesis
      by (auto simp: map_of_active_move AList.update_conv' split: if_splits)
  qed
qed

lemma list_has_new_output:
  assumes "distinct (map fst (active_terminal_sessions m))"
    and "st \<in> set (get_list_of_all_active_sessions_with_status m now)"
  shows "\<exists>s. map_of (active_terminal_sessions m) (status_session_id st) = Some s \<and>
             has_new_output st = (newly_available_output_since_last_read s \<noteq> [])"
proof -
  from assms(2) obtain k s where ks: "(k, s) \<in> set (active_terminal_sessions m)"
    and st: "st = \<lparr>status_session_id = k,
             is_completed = command_execution_has_completed s,
             runtime_microseconds = now - session_creation_timestamp s,
             has_new_output = (length (newly_available_output_since_last_read s) > 0),
             total_output_length = length (accumulated_output_buffer s)\<rparr>"
    by (auto simp: get_list_of_all_active_sessions_with_status_def)
  from assms(1) ks have "map_of (active_terminal_sessions m) k = Some s" by simp
  with st show ?thesis by simp
qed



lemma completed_ids_move:
  "completed_ids (move_session_to_completed m k now) \<subseteq> completed_ids m \<union> active_ids m"
proof (cases "map_of (active_terminal_sessions m) k")
  case None
  then show ?thesis by (simp add: move_session_to_completed_def)
next
  case (Some session)
  then have k: "k \<in> active_ids m"
    unfolding active_ids_def by (rule map_of_Some_key)
  have "completed_ids (move_session_to_completed m k now)
          = completed_ids (keep_most_recent_completed (store_completed_session m k session now))"
    using Some by (simp add: move_session_to_completed_def)
  also have "\<dots> \<subseteq> completed_ids (store_completed_session m k session now)"
    by (rule keep_most_recent_ids)
  also have "\<dots> = insert k (completed_ids m)" by simp
  finally show ?thesis using k by auto
qed

lemma completed_ids_update_active [simp]:
  "completed_ids (m\<lparr>active_terminal_sessions := al\<rparr>) = completed_ids m"
  "completed_ids (m\<lparr>next_session_id := n\<rparr>) = completed_ids m"
  by (simp_all add: completed_ids_def)

lemma apply_operation_completed_ids:
  "completed_ids (apply_operation m operation) \<subseteq> completed_ids m \<union> active_ids m"
proof (cases operation)
  case (Start c t sh env)
  from start_manager_cases[of m c t sh env] show ?thesis
    unfolding Start by (elim disjE exE) (simp_all add: completed_ids_def)
next
  case (Read k t env)
  show ?thesis
  proof (cases "read_raises_overflow_error m k t")
    case True
    with Read True show ?thesis by auto
  next
    case returns: False
    show ?thesis
    proof (cases "map_of (active_terminal_sessions m) k")
      case None
      with Read returns show ?thesis
        by (cases "map_of (completed_session_history m) k")
          (auto simp add: read_new_output_from_session_with_timeout_def)
    next
      case (Some session)
      then have k: "k \<in> active_ids m"
        unfolding active_ids_def by (rule map_of_Some_key)
      from read_manager_cases[OF Some, of t env] obtain s' where
        "apply_operation m operation
           = m\<lparr>active_terminal_sessions := AList.update k s' (active_terminal_sessions m)\<rparr>
         \<or> apply_operation m operation
           = move_session_to_completed
               (m\<lparr>active_terminal_sessions := AList.update k s' (active_terminal_sessions m)\<rparr>)
               k (move_now env)"
        using Read returns by auto
      then show ?thesis
        using active_ids_update_present[OF k, of s']
          completed_ids_move[of "m\<lparr>active_terminal_sessions :=
             AList.update k s' (active_terminal_sessions m)\<rparr>" k "move_now env"]
        by auto
    qed
  qed
next
  case (Terminate k env)
  then show ?thesis
    using completed_ids_move[of m k "terminate_now env"]
    by (cases "map_of (active_terminal_sessions m) k"; cases "stop_process env")
      (auto simp add: force_terminate_session_with_cleanup_def)
next
  case (ListSessions x)
  then show ?thesis by auto
qed

lemma ids_positive_foldl:
  "1 \<le> next_session_id m \<Longrightarrow> \<forall>k \<in> active_ids m \<union> completed_ids m. 1 \<le> k \<Longrightarrow>
   1 \<le> next_session_id (foldl apply_operation m ops) \<and>
   (\<forall>k \<in> active_ids (foldl apply_operation m ops)
        \<union> completed_ids (foldl apply_operation m ops). 1 \<le> k)"
proof (induction ops arbitrary: m)
  case Nil
  then show ?case by simp
next
  case (Cons operation ops)
  have n: "1 \<le> next_session_id (apply_operation m operation)"
    using apply_operation_ids[of m operation] Cons.prems(1) by simp
  have "\<forall>k \<in> active_ids (apply_operation m operation)
        \<union> completed_ids (apply_operation m operation). 1 \<le> k"
    using apply_operation_ids[of m operation] apply_operation_completed_ids[of m operation]
      Cons.prems by blast
  from Cons.IH[OF n this] show ?case by simp
qed

lemma ids_positive_run:
  "1 \<le> next_session_id (run ops) \<and>
   (\<forall>k \<in> active_ids (run ops) \<union> completed_ids (run ops). 1 \<le> k)"
  unfolding run_def
  by (rule ids_positive_foldl) (simp_all add: init_def active_ids_def completed_ids_def)

lemma start_popen_raises:
  "popen env = PopenRaises e \<Longrightarrow>
   start_command_execution_with_timeout_and_background_support m c t sh env
     = (m, \<lparr>result_process_id = - 1, initial_output_text = '''',
            command_is_still_running_in_background = False,
            error_message = Some (''Failed to execute command: '' @ e)\<rparr>)"
  by (simp add: start_command_execution_with_timeout_and_background_support_def
      failed_to_execute_def)

lemma start_popen_returns:
  assumes "popen env = PopenReturns handle"
    and "thread_start env = None" and "converts_to_float t"
  shows "\<exists>s' out err.
     collect_initial_output (ticks_before_deadline t (start_ticks env))
       \<lparr>process_id = next_session_id m, process = handle,
        accumulated_output_buffer = '''', newly_available_output_since_last_read = '''',
        command_execution_has_completed = False,
        session_creation_timestamp = creation_now env,
        output_reading_thread = Some (started_thread env),
        output_queue = [], last_exit_code = None\<rparr> '''' = (s', out, err) \<and>
     start_command_execution_with_timeout_and_background_support m c t sh env
       = (m\<lparr>next_session_id := next_session_id m + 1,
            active_terminal_sessions :=
              AList.update (next_session_id m) s' (active_terminal_sessions m)\<rparr>,
          \<lparr>result_process_id = next_session_id m, initial_output_text = out,
           command_is_still_running_in_background =
             (err = None \<and> \<not> command_execution_has_completed s'),
           error_message = map_option (\<lambda>content. ''Process error: '' @ content) err\<rparr>)"
proof -
  obtain s' out err where c: "collect_initial_output
      (ticks_before_deadline t (start_ticks env))
      \<lparr>process_id = next_session_id m, process = handle,
       accumulated_output_buffer = '''', newly_available_output_since_last_read = '''',
       command_execution_has_completed = False,
       session_creation_timestamp = creation_now env,
       output_reading_thread = Some (started_thread env),
       output_queue = [], last_exit_code = None\<rparr> '''' = (s', out, err)"
    by (metis prod_cases3)
  have "start_command_execution_with_timeout_and_background_support m c t sh env
       = (m\<lparr>next_session_id := next_session_id m + 1,
            active_terminal_sessions :=
              AList.update (next_session_id m) s' (active_terminal_sessions m)\<rparr>,
          \<lparr>result_process_id = next_session_id m, initial_output_text = out,
           command_is_still_running_in_background =
             (err = None \<and> \<not> command_execution_has_completed s'),
           error_message = map_option (\<lambda>content. ''Process error: '' @ content) err\<rparr>)"
    using assms c
    by (cases err)
      (simp_all add: start_command_execution_with_timeout_and_background_support_def Let_def)
  with c show ?thesis by blast
qed



lemma queue_get_None: "queue_get q puts = None \<longleftrightarrow> q = [] \<and> puts = []"
  by (cases "q @ puts") (auto simp: queue_get_def)


lemma wait_by_gets:
  "wait_for_new_output ticks s [] = (s', exit) \<Longrightarrow>
   newly_available_output_since_last_read s' = newly_available_output_since_last_read s \<and>
   (end_of_wait (command_execution_has_completed s) (queue_gets (output_queue s) ticks)
        = WaitDeadline \<longrightarrow>
      exit = TimeoutReached ''No new output available'' \<and>
      accumulated_output_buffer s' = accumulated_output_buffer s \<and>
      command_execution_has_completed s' = command_execution_has_completed s \<and>
      last_exit_code s' = last_exit_code s) \<and>
   (\<forall>content. end_of_wait (command_execution_has_completed s)
        (queue_gets (output_queue s) ticks) = WaitOutput content \<longrightarrow>
      exit = Returns content \<and>
      accumulated_output_buffer s' = accumulated_output_buffer s @ content \<and>
      command_execution_has_completed s' = command_execution_has_completed s \<and>
      last_exit_code s' = last_exit_code s) \<and>
   (\<forall>content. end_of_wait (command_execution_has_completed s)
        (queue_gets (output_queue s) ticks) = WaitCompleted content \<longrightarrow>
      exit = ReturnsAfterMove (''Process completed with exit code '' @ str_exit_code content) \<and>
      accumulated_output_buffer s' = accumulated_output_buffer s \<and>
      command_execution_has_completed s' \<and> last_exit_code s' = content) \<and>
   (\<forall>content. end_of_wait (command_execution_has_completed s)
        (queue_gets (output_queue s) ticks) = WaitError content \<longrightarrow>
      exit = Returns (''Process error: '' @ content) \<and>
      accumulated_output_buffer s' = accumulated_output_buffer s \<and>
      command_execution_has_completed s' = command_execution_has_completed s \<and>
      last_exit_code s' = last_exit_code s) \<and>
   (end_of_wait (command_execution_has_completed s) (queue_gets (output_queue s) ticks)
        = WaitFoundCompleted \<longrightarrow>
      exit = Returns (''Process completed with exit code ''
                        @ str_exit_code (last_exit_code s)) \<and>
      accumulated_output_buffer s' = accumulated_output_buffer s \<and>
      command_execution_has_completed s' = command_execution_has_completed s \<and>
      last_exit_code s' = last_exit_code s)"
proof (induction ticks arbitrary: s)
  case Nil
  then show ?case by auto
next
  case (Cons t ticks)
  show ?case
  proof (cases "queue_get (output_queue s) (reader_puts t)")
    case None
    then have q: "output_queue s = []" by (simp add: queue_get_None)
    show ?thesis
    proof (cases "command_execution_has_completed s")
      case True
      with Cons.prems None show ?thesis by auto
    next
      case False
      with Cons.prems None have "wait_for_new_output ticks s [] = (s', exit)" by simp
      from Cons.IH[OF this] None False q show ?thesis by simp
    qed
  next
    case (Some got)
    obtain item rest where got: "got = (item, rest)" by (cases got)
    show ?thesis
    proof (cases item)
      case (Output content)
      show ?thesis
      proof (cases "content = []")
        case True
        let ?s1 = "s\<lparr>output_queue := rest,
                 accumulated_output_buffer := accumulated_output_buffer s @ content\<rparr>"
        from Cons.prems Some got Output True
        have "wait_for_new_output ticks ?s1 [] = (s', exit)" by (simp add: Let_def)
        from Cons.IH[OF this] Some got Output True show ?thesis by simp
      next
        case False
        with Cons.prems Some got Output show ?thesis by (auto simp: Let_def)
      qed
    next
      case (Completed content)
      with Cons.prems Some got show ?thesis by auto
    next
      case (Error content)
      with Cons.prems Some got show ?thesis by auto
    qed
  qed
qed

lemma collect_conserves:
  "collect_initial_output ticks s io = (s', io', err) \<Longrightarrow>
   \<exists>n got. n \<le> length ticks \<and>
     output_queue s @ concat (map reader_puts (take n ticks)) = got @ output_queue s' \<and>
     io' = io @ outputs_of got \<and>
     accumulated_output_buffer s' = accumulated_output_buffer s @ outputs_of got \<and>
     newly_available_output_since_last_read s'
       = newly_available_output_since_last_read s @ outputs_of got"
proof (induction ticks arbitrary: s io)
  case Nil
  then have "0 \<le> length ([]::tick list) \<and>
     output_queue s @ concat (map reader_puts (take 0 [])) = [] @ output_queue s' \<and>
     io' = io @ outputs_of [] \<and>
     accumulated_output_buffer s' = accumulated_output_buffer s @ outputs_of [] \<and>
     newly_available_output_since_last_read s'
       = newly_available_output_since_last_read s @ outputs_of []" by auto
  then show ?case by blast
next
  case (Cons t ticks)
  show ?case
  proof (cases "queue_get (output_queue s) (reader_puts t)")
    case None
    then have q: "output_queue s = []" "reader_puts t = []" by (simp_all add: queue_get_None)
    show ?thesis
    proof (cases "process_poll t")
      case pn: None
      from Cons.prems None pn have "collect_initial_output ticks s io = (s', io', err)" by simp
      from Cons.IH[OF this] obtain n got where
        "n \<le> length ticks" and
        "output_queue s @ concat (map reader_puts (take n ticks)) = got @ output_queue s'" and
        "io' = io @ outputs_of got" and
        "accumulated_output_buffer s' = accumulated_output_buffer s @ outputs_of got" and
        "newly_available_output_since_last_read s'
           = newly_available_output_since_last_read s @ outputs_of got"
        by blast
      with q have "Suc n \<le> length (t # ticks) \<and>
        output_queue s @ concat (map reader_puts (take (Suc n) (t # ticks)))
          = got @ output_queue s' \<and>
        io' = io @ outputs_of got \<and>
        accumulated_output_buffer s' = accumulated_output_buffer s @ outputs_of got \<and>
        newly_available_output_since_last_read s'
           = newly_available_output_since_last_read s @ outputs_of got" by simp
      then show ?thesis by blast
    next
      case (Some rc)
      with Cons.prems None have "0 \<le> length (t # ticks) \<and>
        output_queue s @ concat (map reader_puts (take 0 (t # ticks)))
          = [] @ output_queue s' \<and>
        io' = io @ outputs_of [] \<and>
        accumulated_output_buffer s' = accumulated_output_buffer s @ outputs_of [] \<and>
        newly_available_output_since_last_read s'
           = newly_available_output_since_last_read s @ outputs_of []" by auto
      then show ?thesis by blast
    qed
  next
    case (Some g)
    obtain item rest where g: "g = (item, rest)" by (cases g)
    from Some g have qr: "output_queue s @ reader_puts t = item # rest"
      by (cases "output_queue s @ reader_puts t") (auto simp: queue_get_def)
    show ?thesis
    proof (cases item)
      case (Output content)
      let ?s1 = "s\<lparr>output_queue := rest,
               accumulated_output_buffer := accumulated_output_buffer s @ content,
               newly_available_output_since_last_read :=
                 newly_available_output_since_last_read s @ content\<rparr>"
      from Cons.prems Some g Output
      have "collect_initial_output ticks ?s1 (io @ content) = (s', io', err)" by simp
      from Cons.IH[OF this] obtain n got where
        n: "n \<le> length ticks" and
        c: "rest @ concat (map reader_puts (take n ticks)) = got @ output_queue s'" and
        o: "io' = (io @ content) @ outputs_of got"
           "accumulated_output_buffer s' = (accumulated_output_buffer s @ content) @ outputs_of got"
           "newly_available_output_since_last_read s'
              = (newly_available_output_since_last_read s @ content) @ outputs_of got"
        by auto
      have "output_queue s @ concat (map reader_puts (take (Suc n) (t # ticks)))
              = (output_queue s @ reader_puts t) @ concat (map reader_puts (take n ticks))"
        by simp
      also have "\<dots> = (item # got) @ output_queue s'" using qr c by simp
      finally have "Suc n \<le> length (t # ticks) \<and>
        output_queue s @ concat (map reader_puts (take (Suc n) (t # ticks)))
          = (item # got) @ output_queue s' \<and>
        io' = io @ outputs_of (item # got) \<and>
        accumulated_output_buffer s' = accumulated_output_buffer s @ outputs_of (item # got) \<and>
        newly_available_output_since_last_read s'
           = newly_available_output_since_last_read s @ outputs_of (item # got)"
        using n o Output by simp
      then show ?thesis by blast
    next
      case (Completed content)
      with Cons.prems Some g qr have "Suc 0 \<le> length (t # ticks) \<and>
        output_queue s @ concat (map reader_puts (take (Suc 0) (t # ticks)))
          = [item] @ output_queue s' \<and>
        io' = io @ outputs_of [item] \<and>
        accumulated_output_buffer s' = accumulated_output_buffer s @ outputs_of [item] \<and>
        newly_available_output_since_last_read s'
           = newly_available_output_since_last_read s @ outputs_of [item]" by auto
      then show ?thesis by blast
    next
      case (Error content)
      with Cons.prems Some g qr have "Suc 0 \<le> length (t # ticks) \<and>
        output_queue s @ concat (map reader_puts (take (Suc 0) (t # ticks)))
          = [item] @ output_queue s' \<and>
        io' = io @ outputs_of [item] \<and>
        accumulated_output_buffer s' = accumulated_output_buffer s @ outputs_of [item] \<and>
        newly_available_output_since_last_read s'
           = newly_available_output_since_last_read s @ outputs_of [item]" by auto
      then show ?thesis by blast
    qed
  qed
qed

subsection \<open>The pending buffer\<close>

text \<open>
  C10. The loop of read leaves the pending buffer \<open>newly_available_output_since_last_read\<close>
  as it was, whatever it takes from the queue. After a read on an active session in a
  reachable state, the session, if still active, has an empty pending buffer, the other
  active sessions are as they were, and no entry of list for that id reports
  \<open>has_new_output\<close>.
\<close>

theorem blocking_read_leaves_pending_buffer:
  "newly_available_output_since_last_read (fst (wait_for_new_output ticks session new_output))
     = newly_available_output_since_last_read session \<and>
   (\<forall>session_id before timeout_milliseconds env.
      map_of (active_terminal_sessions (run ops)) session_id = Some before \<longrightarrow>
      (\<forall>j after.
         map_of (active_terminal_sessions
           (fst (read_new_output_from_session_with_timeout (run ops) session_id
                   timeout_milliseconds env))) j = Some after \<longrightarrow>
         (if j = session_id then newly_available_output_since_last_read after = []
          else map_of (active_terminal_sessions (run ops)) j = Some after)) \<and>
      (\<forall>now. \<forall>st \<in> set (get_list_of_all_active_sessions_with_status
           (fst (read_new_output_from_session_with_timeout (run ops) session_id
                   timeout_milliseconds env)) now).
         status_session_id st = session_id \<longrightarrow> \<not> has_new_output st))"
proof (intro conjI allI impI ballI)
  show "newly_available_output_since_last_read (fst (wait_for_new_output ticks session new_output))
     = newly_available_output_since_last_read session"
    by (rule wait_keeps_pending)
next
  fix session_id before timeout_milliseconds env j after
  assume "map_of (active_terminal_sessions (run ops)) session_id = Some before"
    and "map_of (active_terminal_sessions
           (fst (read_new_output_from_session_with_timeout (run ops) session_id
                   timeout_milliseconds env))) j = Some after"
  then show "if j = session_id then newly_available_output_since_last_read after = []
          else map_of (active_terminal_sessions (run ops)) j = Some after"
    by (rule read_sessions_after)
next
  fix session_id before timeout_milliseconds env now st
  let ?m' = "fst (read_new_output_from_session_with_timeout (run ops) session_id
                   timeout_milliseconds env)"
  assume b: "map_of (active_terminal_sessions (run ops)) session_id = Some before"
    and st: "st \<in> set (get_list_of_all_active_sessions_with_status ?m' now)"
    and id: "status_session_id st = session_id"
  have "registry_invariant ?m'" by (rule invariant_read) (rule invariant_run)
  then have "distinct (map fst (active_terminal_sessions ?m'))"
    by (simp add: registry_invariant_def)
  from list_has_new_output[OF this st] id obtain s where
    s: "map_of (active_terminal_sessions ?m') session_id = Some s"
    and h: "has_new_output st = (newly_available_output_since_last_read s \<noteq> [])"
    by auto
  from read_sessions_after[OF b s] h show "\<not> has_new_output st" by simp
qed

subsection \<open>One quiet session\<close>

lemma run_quiet_start:
  "run [quiet_start] =
     \<lparr>active_terminal_sessions =
        [(1, \<lparr>process_id = 1, process = 0, accumulated_output_buffer = [],
              newly_available_output_since_last_read = [],
              command_execution_has_completed = False, session_creation_timestamp = 0,
              output_reading_thread = Some 0, output_queue = [], last_exit_code = None\<rparr>)],
      completed_session_history = [], next_session_id = 2,
      maximum_completed_sessions_to_retain = 100\<rparr>"
  by (simp add: run_def quiet_start_def init_def
      start_command_execution_with_timeout_and_background_support_def converts_to_float_small
      ticks_before_deadline_def)


lemma read_by_gets:
  assumes act: "map_of (active_terminal_sessions m) k = Some session"
    and pen: "newly_available_output_since_last_read session = []"
  shows "\<exists>s'. newly_available_output_since_last_read s' = [] \<and>
    (end_of_wait (command_execution_has_completed session)
        (queue_gets (output_queue session) (ticks_before_deadline t (read_ticks env)))
       = WaitDeadline \<longrightarrow>
     read_new_output_from_session_with_timeout m k t env
       = (m\<lparr>active_terminal_sessions := AList.update k s' (active_terminal_sessions m)\<rparr>,
          ''No new output available'', True) \<and>
     accumulated_output_buffer s' = accumulated_output_buffer session \<and>
     command_execution_has_completed s' = command_execution_has_completed session) \<and>
    (\<forall>content. end_of_wait (command_execution_has_completed session)
        (queue_gets (output_queue session) (ticks_before_deadline t (read_ticks env)))
       = WaitOutput content \<longrightarrow>
     read_new_output_from_session_with_timeout m k t env
       = (m\<lparr>active_terminal_sessions := AList.update k s' (active_terminal_sessions m)\<rparr>,
          content, False) \<and>
     accumulated_output_buffer s' = accumulated_output_buffer session @ content \<and>
     command_execution_has_completed s' = command_execution_has_completed session) \<and>
    (\<forall>content. end_of_wait (command_execution_has_completed session)
        (queue_gets (output_queue session) (ticks_before_deadline t (read_ticks env)))
       = WaitCompleted content \<longrightarrow>
     read_new_output_from_session_with_timeout m k t env
       = (move_session_to_completed
            (m\<lparr>active_terminal_sessions := AList.update k s' (active_terminal_sessions m)\<rparr>)
            k (move_now env),
          ''Process completed with exit code '' @ str_exit_code content, False) \<and>
     accumulated_output_buffer s' = accumulated_output_buffer session \<and>
     command_execution_has_completed s' \<and> last_exit_code s' = content) \<and>
    (\<forall>content. end_of_wait (command_execution_has_completed session)
        (queue_gets (output_queue session) (ticks_before_deadline t (read_ticks env)))
       = WaitError content \<longrightarrow>
     read_new_output_from_session_with_timeout m k t env
       = (m\<lparr>active_terminal_sessions := AList.update k s' (active_terminal_sessions m)\<rparr>,
          ''Process error: '' @ content, False) \<and>
     accumulated_output_buffer s' = accumulated_output_buffer session \<and>
     command_execution_has_completed s' = command_execution_has_completed session) \<and>
    (end_of_wait (command_execution_has_completed session)
        (queue_gets (output_queue session) (ticks_before_deadline t (read_ticks env)))
       = WaitFoundCompleted \<longrightarrow>
     read_new_output_from_session_with_timeout m k t env
       = (m\<lparr>active_terminal_sessions := AList.update k s' (active_terminal_sessions m)\<rparr>,
          ''Process completed with exit code '' @ str_exit_code (last_exit_code session),
          False) \<and>
     accumulated_output_buffer s' = accumulated_output_buffer session \<and>
     command_execution_has_completed s' = command_execution_has_completed session)"
proof -
  let ?ticks = "ticks_before_deadline t (read_ticks env)"
  obtain s' exit where w: "wait_for_new_output ?ticks session [] = (s', exit)"
    by (metis surj_pair)
  have rd: "read_new_output_from_session_with_timeout m k t env =
     (case exit of
        Returns output \<Rightarrow>
          (m\<lparr>active_terminal_sessions := AList.update k s' (active_terminal_sessions m)\<rparr>,
           output, False)
      | ReturnsAfterMove output \<Rightarrow>
          (move_session_to_completed
             (m\<lparr>active_terminal_sessions := AList.update k s' (active_terminal_sessions m)\<rparr>)
             k (move_now env), output, False)
      | TimeoutReached output \<Rightarrow>
          (m\<lparr>active_terminal_sessions := AList.update k s' (active_terminal_sessions m)\<rparr>,
           output, True))"
    using act pen w by (simp add: read_new_output_from_session_with_timeout_def Let_def)
  note g = wait_by_gets[OF w]
  show ?thesis
  proof (intro exI[of _ s'] conjI allI impI)
    show "newly_available_output_since_last_read s' = []" using g pen by simp
  qed (use g rd in simp_all)
qed

lemma completed_history_update_active [simp]:
  "completed_session_history (m\<lparr>active_terminal_sessions := al\<rparr>) = completed_session_history m"
  by simp

subsection \<open>An error item\<close>


lemma read_keeps_flag_or_moves:
  assumes act: "map_of (active_terminal_sessions m) k = Some session"
  shows "\<exists>s'. (fst (read_new_output_from_session_with_timeout m k t env)
             = m\<lparr>active_terminal_sessions := AList.update k s' (active_terminal_sessions m)\<rparr> \<and>
            command_execution_has_completed s' = command_execution_has_completed session)
           \<or> fst (read_new_output_from_session_with_timeout m k t env)
             = move_session_to_completed
                 (m\<lparr>active_terminal_sessions := AList.update k s' (active_terminal_sessions m)\<rparr>)
                 k (move_now env)"
proof (cases "newly_available_output_since_last_read session = []")
  case False
  then have "fst (read_new_output_from_session_with_timeout m k t env)
      = m\<lparr>active_terminal_sessions := AList.update k
            (session\<lparr>newly_available_output_since_last_read := ''''\<rparr>)
            (active_terminal_sessions m)\<rparr>"
    using act by (simp add: read_new_output_from_session_with_timeout_def)
  moreover have "command_execution_has_completed
      (session\<lparr>newly_available_output_since_last_read := ''''\<rparr>)
        = command_execution_has_completed session" by simp
  ultimately show ?thesis by blast
next
  case True
  let ?e = "end_of_wait (command_execution_has_completed session)
        (queue_gets (output_queue session) (ticks_before_deadline t (read_ticks env)))"
  from read_by_gets[OF act True, of t env] obtain s' where
    d: "?e = WaitDeadline \<longrightarrow>
     read_new_output_from_session_with_timeout m k t env
       = (m\<lparr>active_terminal_sessions := AList.update k s' (active_terminal_sessions m)\<rparr>,
          ''No new output available'', True) \<and>
     command_execution_has_completed s' = command_execution_has_completed session"
    and o: "\<forall>content. ?e = WaitOutput content \<longrightarrow>
     read_new_output_from_session_with_timeout m k t env
       = (m\<lparr>active_terminal_sessions := AList.update k s' (active_terminal_sessions m)\<rparr>,
          content, False) \<and>
     command_execution_has_completed s' = command_execution_has_completed session"
    and c: "\<forall>content. ?e = WaitCompleted content \<longrightarrow>
     read_new_output_from_session_with_timeout m k t env
       = (move_session_to_completed
            (m\<lparr>active_terminal_sessions := AList.update k s' (active_terminal_sessions m)\<rparr>)
            k (move_now env),
          ''Process completed with exit code '' @ str_exit_code content, False)"
    and e: "\<forall>content. ?e = WaitError content \<longrightarrow>
     read_new_output_from_session_with_timeout m k t env
       = (m\<lparr>active_terminal_sessions := AList.update k s' (active_terminal_sessions m)\<rparr>,
          ''Process error: '' @ content, False) \<and>
     command_execution_has_completed s' = command_execution_has_completed session"
    and f: "?e = WaitFoundCompleted \<longrightarrow>
     read_new_output_from_session_with_timeout m k t env
       = (m\<lparr>active_terminal_sessions := AList.update k s' (active_terminal_sessions m)\<rparr>,
          ''Process completed with exit code '' @ str_exit_code (last_exit_code session),
          False) \<and>
     command_execution_has_completed s' = command_execution_has_completed session"
    by blast
  have "(fst (read_new_output_from_session_with_timeout m k t env)
             = m\<lparr>active_terminal_sessions := AList.update k s' (active_terminal_sessions m)\<rparr> \<and>
            command_execution_has_completed s' = command_execution_has_completed session)
           \<or> fst (read_new_output_from_session_with_timeout m k t env)
             = move_session_to_completed
                 (m\<lparr>active_terminal_sessions := AList.update k s' (active_terminal_sessions m)\<rparr>)
                 k (move_now env)"
    using d o c e f by (cases ?e) simp_all
  then show ?thesis by blast
qed

lemma flag_frame:
  assumes b: "map_of (active_terminal_sessions (run ops)) k = Some before"
    and a: "map_of (active_terminal_sessions (apply_operation (run ops) operation)) k = Some after"
  shows "command_execution_has_completed after = command_execution_has_completed before"
proof (cases operation)
  case (Start c t sh env)
  from b have "k \<in> active_ids (run ops)"
    unfolding active_ids_def by (rule map_of_Some_key)
  with invariant_run[of ops] have ne: "k \<noteq> next_session_id (run ops)"
    by (auto simp: registry_invariant_def)
  from start_manager_cases[of "run ops" c t sh env]
  consider "apply_operation (run ops) operation = run ops"
    | "apply_operation (run ops) operation
         = (run ops)\<lparr>next_session_id := next_session_id (run ops) + 1\<rparr>"
    | s' where "apply_operation (run ops) operation
         = (run ops)\<lparr>next_session_id := next_session_id (run ops) + 1,
             active_terminal_sessions :=
               AList.update (next_session_id (run ops)) s'
                 (active_terminal_sessions (run ops))\<rparr>"
    unfolding Start by auto
  then show ?thesis
  proof cases
    case 1
    with a b show ?thesis by simp
  next
    case 2
    with a b show ?thesis by simp
  next
    case e: 3
    from a b ne show ?thesis unfolding e by (simp add: AList.update_conv')
  qed
next
  case (Read j t env)
  show ?thesis
  proof (cases "read_raises_overflow_error ((run ops)) j t")
    case True
    with Read True a b show ?thesis by simp
  next
    case returns: False
    show ?thesis
    proof (cases "map_of (active_terminal_sessions (run ops)) j")
      case None
      with Read returns a b show ?thesis
        by (cases "map_of (completed_session_history (run ops)) j")
          (simp_all add: read_new_output_from_session_with_timeout_def)
    next
      case (Some session)
      from read_keeps_flag_or_moves[OF Some, of t env] obtain s' where
        "(apply_operation (run ops) operation
           = (run ops)\<lparr>active_terminal_sessions :=
                AList.update j s' (active_terminal_sessions (run ops))\<rparr> \<and>
          command_execution_has_completed s' = command_execution_has_completed session)
         \<or> apply_operation (run ops) operation
           = move_session_to_completed
               ((run ops)\<lparr>active_terminal_sessions :=
                  AList.update j s' (active_terminal_sessions (run ops))\<rparr>)
               j (move_now env)"
        using Read returns by auto
      then show ?thesis
      proof
        assume "apply_operation (run ops) operation
           = (run ops)\<lparr>active_terminal_sessions :=
                AList.update j s' (active_terminal_sessions (run ops))\<rparr> \<and>
          command_execution_has_completed s' = command_execution_has_completed session"
        with a b Some show ?thesis
          by (cases "k = j") (simp_all add: AList.update_conv')
      next
        assume "apply_operation (run ops) operation
           = move_session_to_completed
               ((run ops)\<lparr>active_terminal_sessions :=
                  AList.update j s' (active_terminal_sessions (run ops))\<rparr>)
               j (move_now env)"
        with a b show ?thesis
          by (cases "k = j") (simp_all add: map_of_active_move AList.update_conv')
      qed
    qed
  qed
next
  case (Terminate j env)
  with a b show ?thesis
    by (cases "map_of (active_terminal_sessions (run ops)) j"; cases "stop_process env";
        cases "k = j")
      (simp_all add: force_terminate_session_with_cleanup_def map_of_active_move)
next
  case (ListSessions x)
  with a b show ?thesis by simp
qed

lemma wait_conserves:
  "wait_for_new_output ticks s [] = (s', exit) \<Longrightarrow>
   \<exists>n got. n \<le> length ticks \<and>
     output_queue s @ concat (map reader_puts (take n ticks)) = got @ output_queue s' \<and>
     accumulated_output_buffer s' = accumulated_output_buffer s @ outputs_of got \<and>
     (outputs_of got \<noteq> [] \<longrightarrow> exit = Returns (outputs_of got))"
proof (induction ticks arbitrary: s)
  case Nil
  then have "0 \<le> length ([]::tick list) \<and>
     output_queue s @ concat (map reader_puts (take 0 [])) = [] @ output_queue s' \<and>
     accumulated_output_buffer s' = accumulated_output_buffer s @ outputs_of [] \<and>
     (outputs_of [] \<noteq> [] \<longrightarrow> exit = Returns (outputs_of []))" by auto
  then show ?case by blast
next
  case (Cons t ticks)
  show ?case
  proof (cases "queue_get (output_queue s) (reader_puts t)")
    case None
    then have q: "output_queue s = []" "reader_puts t = []" by (simp_all add: queue_get_None)
    show ?thesis
    proof (cases "command_execution_has_completed s")
      case False
      from Cons.prems None False have "wait_for_new_output ticks s [] = (s', exit)" by simp
      from Cons.IH[OF this] obtain n got where
        "n \<le> length ticks" and
        "output_queue s @ concat (map reader_puts (take n ticks)) = got @ output_queue s'" and
        "accumulated_output_buffer s' = accumulated_output_buffer s @ outputs_of got" and
        "outputs_of got \<noteq> [] \<longrightarrow> exit = Returns (outputs_of got)"
        by blast
      with q have "Suc n \<le> length (t # ticks) \<and>
        output_queue s @ concat (map reader_puts (take (Suc n) (t # ticks)))
          = got @ output_queue s' \<and>
        accumulated_output_buffer s' = accumulated_output_buffer s @ outputs_of got \<and>
        (outputs_of got \<noteq> [] \<longrightarrow> exit = Returns (outputs_of got))" by simp
      then show ?thesis by blast
    next
      case True
      with Cons.prems None have "0 \<le> length (t # ticks) \<and>
        output_queue s @ concat (map reader_puts (take 0 (t # ticks)))
          = [] @ output_queue s' \<and>
        accumulated_output_buffer s' = accumulated_output_buffer s @ outputs_of [] \<and>
        (outputs_of [] \<noteq> [] \<longrightarrow> exit = Returns (outputs_of []))" by auto
      then show ?thesis by blast
    qed
  next
    case (Some g)
    obtain item rest where g: "g = (item, rest)" by (cases g)
    from Some g have qr: "output_queue s @ reader_puts t = item # rest"
      by (cases "output_queue s @ reader_puts t") (auto simp: queue_get_def)
    have one: "output_queue s @ concat (map reader_puts (take (Suc 0) (t # ticks)))
                = [item] @ rest" using qr by simp
    show ?thesis
    proof (cases item)
      case (Output content)
      let ?s1 = "s\<lparr>output_queue := rest,
               accumulated_output_buffer := accumulated_output_buffer s @ content\<rparr>"
      show ?thesis
      proof (cases "content = []")
        case True
        from Cons.prems Some g Output True
        have "wait_for_new_output ticks ?s1 [] = (s', exit)" by (simp add: Let_def)
        from Cons.IH[OF this] obtain n got where
          n: "n \<le> length ticks" and
          c: "rest @ concat (map reader_puts (take n ticks)) = got @ output_queue s'" and
          o: "accumulated_output_buffer s' = (accumulated_output_buffer s @ content) @ outputs_of got"
             "outputs_of got \<noteq> [] \<longrightarrow> exit = Returns (outputs_of got)"
          by auto
        have "output_queue s @ concat (map reader_puts (take (Suc n) (t # ticks)))
                = (output_queue s @ reader_puts t) @ concat (map reader_puts (take n ticks))"
          by simp
        also have "\<dots> = (item # got) @ output_queue s'" using qr c by simp
        finally have "Suc n \<le> length (t # ticks) \<and>
          output_queue s @ concat (map reader_puts (take (Suc n) (t # ticks)))
            = (item # got) @ output_queue s' \<and>
          accumulated_output_buffer s' = accumulated_output_buffer s @ outputs_of (item # got) \<and>
          (outputs_of (item # got) \<noteq> [] \<longrightarrow> exit = Returns (outputs_of (item # got)))"
          using n o Output True by simp
        then show ?thesis by blast
      next
        case False
        with Cons.prems Some g Output one have "Suc 0 \<le> length (t # ticks) \<and>
          output_queue s @ concat (map reader_puts (take (Suc 0) (t # ticks)))
            = [item] @ output_queue s' \<and>
          accumulated_output_buffer s' = accumulated_output_buffer s @ outputs_of [item] \<and>
          (outputs_of [item] \<noteq> [] \<longrightarrow> exit = Returns (outputs_of [item]))"
          by (auto simp: Let_def)
        then show ?thesis by blast
      qed
    next
      case (Completed content)
      with Cons.prems Some g one have "Suc 0 \<le> length (t # ticks) \<and>
        output_queue s @ concat (map reader_puts (take (Suc 0) (t # ticks)))
          = [item] @ output_queue s' \<and>
        accumulated_output_buffer s' = accumulated_output_buffer s @ outputs_of [item] \<and>
        (outputs_of [item] \<noteq> [] \<longrightarrow> exit = Returns (outputs_of [item]))" by auto
      then show ?thesis by blast
    next
      case (Error content)
      with Cons.prems Some g one have "Suc 0 \<le> length (t # ticks) \<and>
        output_queue s @ concat (map reader_puts (take (Suc 0) (t # ticks)))
          = [item] @ output_queue s' \<and>
        accumulated_output_buffer s' = accumulated_output_buffer s @ outputs_of [item] \<and>
        (outputs_of [item] \<noteq> [] \<longrightarrow> exit = Returns (outputs_of [item]))" by auto
      then show ?thesis by blast
    qed
  qed
qed

subsection \<open>One dictionary at a time\<close>

text \<open>
  C2, as amended. After every sequence of calls no id is in both dictionaries. For a
  session of the active map, \<^verbatim>\<open>_move_session_to_completed\<close> is the three statements in a row;
  after the first of them (line 685) the id is in both dictionaries, and after the last
  (line 693) it is out of the active map and the two dictionaries are disjoint again.
\<close>

theorem id_in_one_dictionary_between_calls:
  "active_ids (run ops) \<inter> completed_ids (run ops) = {} \<and>
   (\<forall>session. map_of (active_terminal_sessions (run ops)) session_id = Some session \<longrightarrow>
      move_session_to_completed (run ops) session_id now
        = remove_from_active
            (keep_most_recent_completed
               (store_completed_session (run ops) session_id session now)) session_id \<and>
      session_id \<in> active_ids (store_completed_session (run ops) session_id session now) \<and>
      session_id \<in> completed_ids (store_completed_session (run ops) session_id session now) \<and>
      session_id \<notin> active_ids (move_session_to_completed (run ops) session_id now) \<and>
      active_ids (move_session_to_completed (run ops) session_id now)
        \<inter> completed_ids (move_session_to_completed (run ops) session_id now) = {})"
proof (intro conjI allI impI)
  show "active_ids (run ops) \<inter> completed_ids (run ops) = {}"
    using invariant_run[of ops] by (simp add: registry_invariant_def)
next
  fix session
  assume a: "map_of (active_terminal_sessions (run ops)) session_id = Some session"
  then show "move_session_to_completed (run ops) session_id now
        = remove_from_active
            (keep_most_recent_completed
               (store_completed_session (run ops) session_id session now)) session_id"
    by (simp add: move_session_to_completed_def)
  from a have "session_id \<in> active_ids (run ops)"
    unfolding active_ids_def by (rule map_of_Some_key)
  then show "session_id \<in> active_ids (store_completed_session (run ops) session_id session now)"
    by (simp add: active_ids_def)
  show "session_id \<in> completed_ids (store_completed_session (run ops) session_id session now)"
    by simp
  show "session_id \<notin> active_ids (move_session_to_completed (run ops) session_id now)"
    by (simp add: active_ids_move)
  have "registry_invariant (move_session_to_completed (run ops) session_id now)"
    by (rule invariant_move) (rule invariant_run)
  then show "active_ids (move_session_to_completed (run ops) session_id now)
        \<inter> completed_ids (move_session_to_completed (run ops) session_id now) = {}"
    by (simp add: registry_invariant_def)
qed

text \<open>
  C2 as stated fails: terminate on the active session 1 runs
  \<^verbatim>\<open>_move_session_to_completed\<close>, and the manager it leaves after line 685, before lines 688
  to 693 run, has the id 1 in the active map and in the completed history.
\<close>

theorem id_in_both_dictionaries_counterexample:
  "fst (force_terminate_session_with_cleanup (run [quiet_start]) 1 clean_stop)
     = remove_from_active
         (keep_most_recent_completed
            (store_completed_session (run [quiet_start]) 1
               \<lparr>process_id = 1, process = 0, accumulated_output_buffer = [],
                newly_available_output_since_last_read = [],
                command_execution_has_completed = False, session_creation_timestamp = 0,
                output_reading_thread = Some 0, output_queue = [], last_exit_code = None\<rparr> 0)) 1 \<and>
   1 \<in> active_ids
         (store_completed_session (run [quiet_start]) 1
            \<lparr>process_id = 1, process = 0, accumulated_output_buffer = [],
             newly_available_output_since_last_read = [],
             command_execution_has_completed = False, session_creation_timestamp = 0,
             output_reading_thread = Some 0, output_queue = [], last_exit_code = None\<rparr> 0)
       \<inter> completed_ids
         (store_completed_session (run [quiet_start]) 1
            \<lparr>process_id = 1, process = 0, accumulated_output_buffer = [],
             newly_available_output_since_last_read = [],
             command_execution_has_completed = False, session_creation_timestamp = 0,
             output_reading_thread = Some 0, output_queue = [], last_exit_code = None\<rparr> 0)"
  by (simp add: run_quiet_start force_terminate_session_with_cleanup_def stop_process_def
      clean_stop_def move_session_to_completed_def active_ids_def completed_ids_def
      store_completed_session_def)

subsection \<open>Starts that fail\<close>

lemma start_thread_raises:
  "popen env = PopenReturns handle \<Longrightarrow> thread_start env = Some e \<Longrightarrow>
   start_command_execution_with_timeout_and_background_support m c t sh env
     = (m\<lparr>next_session_id := next_session_id m + 1\<rparr>,
        \<lparr>result_process_id = - 1, initial_output_text = '''',
         command_is_still_running_in_background = False,
         error_message = Some (''Failed to execute command: '' @ e)\<rparr>)"
  by (simp add: start_command_execution_with_timeout_and_background_support_def
      failed_to_execute_def Let_def)

lemma start_registers:
  assumes "popen env = PopenReturns handle" and "thread_start env = None"
  shows "\<exists>s'. fst (start_command_execution_with_timeout_and_background_support m c t sh env)
           = m\<lparr>next_session_id := next_session_id m + 1,
               active_terminal_sessions :=
                 AList.update (next_session_id m) s' (active_terminal_sessions m)\<rparr>"
  using start_manager_cases[of m c t sh env]
proof (cases "converts_to_float t")
  case True
  from start_popen_returns[OF assms True, of m c sh] show ?thesis by force
next
  case False
  with assms
  have "fst (start_command_execution_with_timeout_and_background_support m c t sh env)
       = m\<lparr>next_session_id := next_session_id m + 1,
           active_terminal_sessions :=
             AList.update (next_session_id m)
               \<lparr>process_id = next_session_id m, process = handle,
                accumulated_output_buffer = '''',
                newly_available_output_since_last_read = '''',
                command_execution_has_completed = False,
                session_creation_timestamp = creation_now env,
                output_reading_thread = Some (started_thread env),
                output_queue = [], last_exit_code = None\<rparr>
               (active_terminal_sessions m)\<rparr>"
    by (simp add: start_command_execution_with_timeout_and_background_support_def Let_def)
  then show ?thesis by blast
qed

lemma start_result_id:
  assumes "popen env = PopenReturns handle" and "thread_start env = None"
  shows "result_process_id
           (snd (start_command_execution_with_timeout_and_background_support m c t sh env))
         = (if converts_to_float t then next_session_id m else - 1)"
proof (cases "converts_to_float t")
  case True
  from start_popen_returns[OF assms True, of m c sh] True show ?thesis by force
next
  case False
  with assms show ?thesis
    by (simp add: start_command_execution_with_timeout_and_background_support_def Let_def
        failed_to_execute_def)
qed

lemma start_keeps_history:
  "completed_session_history
     (fst (start_command_execution_with_timeout_and_background_support m c t sh env))
   = completed_session_history m"
  using start_manager_cases[of m c t sh env] by (elim disjE exE) simp_all

lemma counter_not_active_run: "next_session_id (run ops) \<notin> active_ids (run ops)"
  using invariant_run[of ops] by (auto simp: registry_invariant_def)

text \<open>
  C5. In every reachable state: when \<^verbatim>\<open>Popen\<close> raises, start returns the id \<open>-1\<close>, no
  output, not running and the message \<open>Failed to execute command:\<close> with the text of the
  exception, and the manager is unchanged: no session in either dictionary and the counter
  as it was. When \<^verbatim>\<open>Popen\<close> returns and the reader thread cannot be started, start returns
  the same kind of result and registers no session either, but the counter has advanced by
  one. When \<^verbatim>\<open>Popen\<close> returns and the thread starts, the counter's value is a new id of the
  active map, whatever happens afterwards, and the counter has advanced by one; the result
  carries that id, or \<open>-1\<close> when the timeout is too large for a float. So a start leaves
  the active ids as they were exactly when \<^verbatim>\<open>Popen\<close> or the thread start raised; the
  history is never touched, and no id in use is ever \<open>-1\<close>.
\<close>

theorem start_registers_no_session_iff_spawn_or_thread_fails:
  "(\<forall>e. popen env = PopenRaises e \<longrightarrow>
      start_command_execution_with_timeout_and_background_support (run ops) command_text
          timeout_milliseconds shell_path env
        = (run ops, \<lparr>result_process_id = - 1, initial_output_text = '''',
             command_is_still_running_in_background = False,
             error_message = Some (''Failed to execute command: '' @ e)\<rparr>)) \<and>
   (\<forall>handle e. popen env = PopenReturns handle \<and> thread_start env = Some e \<longrightarrow>
      start_command_execution_with_timeout_and_background_support (run ops) command_text
          timeout_milliseconds shell_path env
        = ((run ops)\<lparr>next_session_id := next_session_id (run ops) + 1\<rparr>,
           \<lparr>result_process_id = - 1, initial_output_text = '''',
            command_is_still_running_in_background = False,
            error_message = Some (''Failed to execute command: '' @ e)\<rparr>)) \<and>
   (\<forall>handle. popen env = PopenReturns handle \<and> thread_start env = None \<longrightarrow>
      active_ids (fst (start_command_execution_with_timeout_and_background_support
          (run ops) command_text timeout_milliseconds shell_path env))
        = insert (next_session_id (run ops)) (active_ids (run ops)) \<and>
      next_session_id (run ops) \<notin> active_ids (run ops) \<and>
      next_session_id (fst (start_command_execution_with_timeout_and_background_support
          (run ops) command_text timeout_milliseconds shell_path env))
        = next_session_id (run ops) + 1 \<and>
      result_process_id (snd (start_command_execution_with_timeout_and_background_support
          (run ops) command_text timeout_milliseconds shell_path env))
        = (if converts_to_float timeout_milliseconds then next_session_id (run ops) else - 1)) \<and>
   (active_ids (fst (start_command_execution_with_timeout_and_background_support
          (run ops) command_text timeout_milliseconds shell_path env)) = active_ids (run ops)
      \<longleftrightarrow> (\<exists>e. popen env = PopenRaises e) \<or> (\<exists>e. thread_start env = Some e)) \<and>
   completed_session_history (fst (start_command_execution_with_timeout_and_background_support
          (run ops) command_text timeout_milliseconds shell_path env))
     = completed_session_history (run ops) \<and>
   - 1 \<notin> active_ids (run ops) \<union> completed_ids (run ops) \<and>
   1 \<le> next_session_id (run ops)"
proof -
  let ?m = "run ops"
  let ?r = "start_command_execution_with_timeout_and_background_support ?m command_text
          timeout_milliseconds shell_path env"
  have fresh: "next_session_id ?m \<notin> active_ids ?m" by (rule counter_not_active_run)
  have a: "?r = (?m, \<lparr>result_process_id = - 1, initial_output_text = '''',
             command_is_still_running_in_background = False,
             error_message = Some (''Failed to execute command: '' @ e)\<rparr>)"
    if "popen env = PopenRaises e" for e
    using that by (rule start_popen_raises)
  have b: "?r = (?m\<lparr>next_session_id := next_session_id ?m + 1\<rparr>,
           \<lparr>result_process_id = - 1, initial_output_text = '''',
            command_is_still_running_in_background = False,
            error_message = Some (''Failed to execute command: '' @ e)\<rparr>)"
    if "popen env = PopenReturns handle" "thread_start env = Some e" for handle e
    using that by (rule start_thread_raises)
  have c1: "active_ids (fst ?r) = insert (next_session_id ?m) (active_ids ?m)"
    and c2: "next_session_id (fst ?r) = next_session_id ?m + 1"
    if "popen env = PopenReturns handle" "thread_start env = None" for handle
  proof -
    from start_registers[OF that, of ?m command_text timeout_milliseconds shell_path]
    obtain s' where e: "fst ?r = ?m\<lparr>next_session_id := next_session_id ?m + 1,
               active_terminal_sessions :=
                 AList.update (next_session_id ?m) s' (active_terminal_sessions ?m)\<rparr>"
      by blast
    show "active_ids (fst ?r) = insert (next_session_id ?m) (active_ids ?m)"
      unfolding e by (simp add: active_ids_def AList.dom_update)
    show "next_session_id (fst ?r) = next_session_id ?m + 1"
      unfolding e by simp
  qed
  have c3: "result_process_id (snd ?r)
        = (if converts_to_float timeout_milliseconds then next_session_id ?m else - 1)"
    if "popen env = PopenReturns handle" "thread_start env = None" for handle
    using that by (rule start_result_id)
  have d: "active_ids (fst ?r) = active_ids ?m
      \<longleftrightarrow> (\<exists>e. popen env = PopenRaises e) \<or> (\<exists>e. thread_start env = Some e)"
  proof (cases "popen env")
    case (PopenRaises e)
    with a[OF PopenRaises] show ?thesis by simp
  next
    case (PopenReturns handle)
    show ?thesis
    proof (cases "thread_start env")
      case (Some e)
      with b[OF PopenReturns Some] show ?thesis by (simp add: active_ids_def)
    next
      case None
      from c1[OF PopenReturns None] fresh have "active_ids (fst ?r) \<noteq> active_ids ?m"
        by blast
      with PopenReturns None show ?thesis by simp
    qed
  qed
  have h: "completed_session_history (fst ?r) = completed_session_history ?m"
    by (rule start_keeps_history)
  have p: "- 1 \<notin> active_ids ?m \<union> completed_ids ?m"
    using ids_positive_run[of ops] by force
  have q: "1 \<le> next_session_id ?m"
    using ids_positive_run[of ops] by simp
  from a b c1 c2 c3 fresh d h p q show ?thesis by blast
qed

text \<open>
  The spec's sentence fails on a start whose thread cannot be started: the process was
  spawned, yet the result is the failure with id \<open>-1\<close>, no session is registered under the
  id 2 that the call took, and the counter has moved on to 3.
\<close>

theorem thread_start_failure_counterexample:
  "popen no_thread_env = PopenReturns 0 \<and>
   next_session_id (run [quiet_start]) = 2 \<and>
   start_command_execution_with_timeout_and_background_support (run [quiet_start])
       ''sleep 60'' 30000 None no_thread_env
     = ((run [quiet_start])\<lparr>next_session_id := 3\<rparr>,
        \<lparr>result_process_id = - 1, initial_output_text = '''',
         command_is_still_running_in_background = False,
         error_message = Some (''Failed to execute command: can'' @ [CHR 0x27]
                                 @ ''t start new thread'')\<rparr>) \<and>
   active_ids (fst (start_command_execution_with_timeout_and_background_support
       (run [quiet_start]) ''sleep 60'' 30000 None no_thread_env)) = {1} \<and>
   completed_ids (fst (start_command_execution_with_timeout_and_background_support
       (run [quiet_start]) ''sleep 60'' 30000 None no_thread_env)) = {}"
  by (simp add: run_quiet_start no_thread_env_def failed_to_execute_def Let_def
      start_command_execution_with_timeout_and_background_support_def
      active_ids_def completed_ids_def)

section \<open>Concrete runs\<close>



theorem terminate_idempotent_in_effect_witness:
  "force_terminate_session_with_cleanup (run [quiet_start]) 2 clean_stop
     = (run [quiet_start], False) \<and>
   force_terminate_session_with_cleanup (run [quiet_start]) 1 refused_stop
     = (run [quiet_start], False) \<and>
   force_terminate_session_with_cleanup (run [quiet_start]) 1 clean_stop
     = (move_session_to_completed (run [quiet_start]) 1 0, True) \<and>
   force_terminate_session_with_cleanup
       (move_session_to_completed (run [quiet_start]) 1 0) 1 clean_stop
     = (move_session_to_completed (run [quiet_start]) 1 0, False)"
proof -
  have out: "2 \<notin> active_ids (run [quiet_start])"
    by (simp add: run_quiet_start active_ids_def)
  have act: "1 \<in> active_ids (run [quiet_start])"
    by (simp add: run_quiet_start active_ids_def)
  have refused: "stop_process refused_stop \<noteq> None"
    by (simp add: stop_process_def refused_stop_def)
  have s1: "map_of (active_terminal_sessions (run [quiet_start])) 1 =
     Some \<lparr>process_id = 1, process = 0, accumulated_output_buffer = [],
              newly_available_output_since_last_read = [],
              command_execution_has_completed = False, session_creation_timestamp = 0,
              output_reading_thread = Some 0, output_queue = [], last_exit_code = None\<rparr>"
    by (simp add: run_quiet_start)
  have clean: "stop_process clean_stop = None"
    by (simp add: stop_process_def clean_stop_def)
  have now: "terminate_now clean_stop = 0" by (simp add: clean_stop_def)
  note t = terminate_idempotent_in_effect
  from t[of 2 "[quiet_start]" clean_stop] out
  have a: "force_terminate_session_with_cleanup (run [quiet_start]) 2 clean_stop
     = (run [quiet_start], False)" by blast
  from t[of 1 "[quiet_start]" refused_stop] act refused
  have b: "force_terminate_session_with_cleanup (run [quiet_start]) 1 refused_stop
     = (run [quiet_start], False)" by blast
  from t[of 1 "[quiet_start]" clean_stop, THEN conjunct2, THEN conjunct2, rule_format,
      OF conjI, OF s1 clean]
  have c: "force_terminate_session_with_cleanup (run [quiet_start]) 1 clean_stop
     = (move_session_to_completed (run [quiet_start]) 1 0, True)"
    and d: "force_terminate_session_with_cleanup
          (foldl apply_operation (move_session_to_completed (run [quiet_start]) 1 0) [])
          1 clean_stop
       = (foldl apply_operation (move_session_to_completed (run [quiet_start]) 1 0) [], False)"
    unfolding now by blast+
  from a b c d show ?thesis by simp
qed

theorem read_unknown_session_witness:
  "read_new_output_from_session_with_timeout init 999 1000
      \<lparr>read_ticks = replicate 10 \<lparr>reader_puts = [], process_poll = None\<rparr>, move_now = 0,
       runtime_text = ''''\<rparr>
     = (init, ''No session found for ID 999'', False)"
proof -
  have "str_int 999 = ''999''" by code_simp
  with read_unknown_session[of init 999 1000] show ?thesis by (simp add: init_def)
qed



lemma run_hello_then_read:
  "run [Start ''echo hello; sleep 60'' 100 None hello_running_env, Read 1 5000 idle_read_env] =
     \<lparr>active_terminal_sessions =
        [(1, \<lparr>process_id = 1, process = 0, accumulated_output_buffer = hello_line,
              newly_available_output_since_last_read = [],
              command_execution_has_completed = False, session_creation_timestamp = 0,
              output_reading_thread = Some 0, output_queue = [], last_exit_code = None\<rparr>)],
      completed_session_history = [], next_session_id = 2,
      maximum_completed_sessions_to_retain = 100\<rparr>"
  by (simp add: run_def init_def hello_running_env_def idle_read_env_def hello_line_def
      start_command_execution_with_timeout_and_background_support_def converts_to_float_small
      read_new_output_from_session_with_timeout_def read_raises_overflow_error_def
      ticks_before_deadline_def queue_get_def)

lemma read_world_after_hello:
  "read_new_output_from_session_with_timeout
       (run [Start ''echo hello; sleep 60'' 100 None hello_running_env,
             Read 1 5000 idle_read_env]) 1 5000 world_read_env
     = (\<lparr>active_terminal_sessions =
          [(1, \<lparr>process_id = 1, process = 0,
                accumulated_output_buffer = hello_line @ world_line,
                newly_available_output_since_last_read = [],
                command_execution_has_completed = False, session_creation_timestamp = 0,
                output_reading_thread = Some 0, output_queue = [], last_exit_code = None\<rparr>)],
        completed_session_history = [], next_session_id = 2,
        maximum_completed_sessions_to_retain = 100\<rparr>, world_line, False)"
  unfolding run_hello_then_read
  by (simp add: world_read_env_def world_line_def hello_line_def
      read_new_output_from_session_with_timeout_def
      ticks_before_deadline_def queue_get_def)

theorem blocking_read_leaves_pending_buffer_witness:
  "snd (read_new_output_from_session_with_timeout
       (run [Start ''echo hello; sleep 60'' 100 None hello_running_env,
             Read 1 5000 idle_read_env]) 1 5000 world_read_env) = (world_line, False) \<and>
   map status_session_id (get_list_of_all_active_sessions_with_status
         (fst (read_new_output_from_session_with_timeout
            (run [Start ''echo hello; sleep 60'' 100 None hello_running_env,
                  Read 1 5000 idle_read_env]) 1 5000 world_read_env)) 7) = [1] \<and>
   map has_new_output (get_list_of_all_active_sessions_with_status
         (fst (read_new_output_from_session_with_timeout
            (run [Start ''echo hello; sleep 60'' 100 None hello_running_env,
                  Read 1 5000 idle_read_env]) 1 5000 world_read_env)) 7) = [False] \<and>
   map total_output_length (get_list_of_all_active_sessions_with_status
         (fst (read_new_output_from_session_with_timeout
            (run [Start ''echo hello; sleep 60'' 100 None hello_running_env,
                  Read 1 5000 idle_read_env]) 1 5000 world_read_env)) 7) = [12]"
proof -
  let ?ops = "[Start ''echo hello; sleep 60'' 100 None hello_running_env,
               Read 1 5000 idle_read_env]"
  let ?st = "\<lparr>status_session_id = 1, is_completed = False, runtime_microseconds = 7,
     has_new_output = (length ([]::string) > 0),
     total_output_length = length (hello_line @ world_line)\<rparr>"
  have before: "map_of (active_terminal_sessions (run ?ops)) 1 =
     Some \<lparr>process_id = 1, process = 0, accumulated_output_buffer = hello_line,
              newly_available_output_since_last_read = [],
              command_execution_has_completed = False, session_creation_timestamp = 0,
              output_reading_thread = Some 0, output_queue = [], last_exit_code = None\<rparr>"
    by (simp add: run_hello_then_read)
  have l: "get_list_of_all_active_sessions_with_status
         (fst (read_new_output_from_session_with_timeout (run ?ops) 1 5000 world_read_env)) 7
       = [?st]"
    by (simp add: read_world_after_hello get_list_of_all_active_sessions_with_status_def)
  have a: "\<forall>st \<in> set (get_list_of_all_active_sessions_with_status
         (fst (read_new_output_from_session_with_timeout (run ?ops) 1 5000 world_read_env)) 7).
      status_session_id st = 1 \<longrightarrow> \<not> has_new_output st"
    using blocking_read_leaves_pending_buffer[where ops = "?ops"] before by blast
  have nh: "\<not> has_new_output ?st"
    by (rule a[rule_format]) (simp_all only: l list.set insertI1 session_status.simps)
  have b: "snd (read_new_output_from_session_with_timeout (run ?ops) 1 5000 world_read_env)
      = (world_line, False)"
    by (simp add: read_world_after_hello)
  from nh l b show ?thesis
    by (simp add: hello_line_def world_line_def)
qed




lemma start_hello_running:
  "start_command_execution_with_timeout_and_background_support init ''echo hello; sleep 60'' 100
       None hello_running_env
     = (\<lparr>active_terminal_sessions =
          [(1, \<lparr>process_id = 1, process = 0, accumulated_output_buffer = hello_line,
                newly_available_output_since_last_read = hello_line,
                command_execution_has_completed = False, session_creation_timestamp = 0,
                output_reading_thread = Some 0, output_queue = [],
                last_exit_code = None\<rparr>)],
        completed_session_history = [], next_session_id = 2,
        maximum_completed_sessions_to_retain = 100\<rparr>,
        \<lparr>result_process_id = 1, initial_output_text = hello_line,
         command_is_still_running_in_background = True, error_message = None\<rparr>)"
  by (simp add: hello_running_env_def init_def ticks_before_deadline_def queue_get_def
      start_command_execution_with_timeout_and_background_support_def converts_to_float_small)



theorem id_in_one_dictionary_between_calls_witness:
  "active_ids (run [quiet_start]) \<inter> completed_ids (run [quiet_start]) = {} \<and>
   1 \<notin> active_ids (move_session_to_completed (run [quiet_start]) 1 0) \<and>
   active_ids (move_session_to_completed (run [quiet_start]) 1 0)
     \<inter> completed_ids (move_session_to_completed (run [quiet_start]) 1 0) = {} \<and>
   map fst (completed_session_history (move_session_to_completed (run [quiet_start]) 1 0)) = [1]"
proof -
  have s: "map_of (active_terminal_sessions (run [quiet_start])) 1 =
     Some \<lparr>process_id = 1, process = 0, accumulated_output_buffer = [],
              newly_available_output_since_last_read = [],
              command_execution_has_completed = False, session_creation_timestamp = 0,
              output_reading_thread = Some 0, output_queue = [], last_exit_code = None\<rparr>"
    by (simp add: run_quiet_start)
  note t = id_in_one_dictionary_between_calls[where ops = "[quiet_start]" and session_id = 1
      and now = 0]
  from t have a: "active_ids (run [quiet_start]) \<inter> completed_ids (run [quiet_start]) = {}"
    by (rule conjunct1)
  from t[THEN conjunct2, rule_format, OF s]
  have b: "1 \<notin> active_ids (move_session_to_completed (run [quiet_start]) 1 0)"
    and c: "active_ids (move_session_to_completed (run [quiet_start]) 1 0)
     \<inter> completed_ids (move_session_to_completed (run [quiet_start]) 1 0) = {}"
    by blast+
  have d: "map fst (completed_session_history
      (move_session_to_completed (run [quiet_start]) 1 0)) = [1]"
    by (simp add: run_quiet_start move_session_to_completed_def store_completed_session_def
        keep_most_recent_completed_def remove_from_active_def)
  from a b c d show ?thesis by blast
qed

theorem start_registers_no_session_iff_spawn_or_thread_fails_witness:
  "start_command_execution_with_timeout_and_background_support (run [quiet_start]) ''nosuch''
       30000 (Some ''/bin/nosuch'') no_such_shell_env
     = (run [quiet_start],
        \<lparr>result_process_id = - 1, initial_output_text = '''',
         command_is_still_running_in_background = False,
         error_message = Some ''Failed to execute command: No such file or directory''\<rparr>) \<and>
   start_command_execution_with_timeout_and_background_support (run [quiet_start])
       ''sleep 60'' 30000 None no_thread_env
     = ((run [quiet_start])\<lparr>next_session_id := 3\<rparr>,
        \<lparr>result_process_id = - 1, initial_output_text = '''',
         command_is_still_running_in_background = False,
         error_message = Some (''Failed to execute command: can'' @ [CHR 0x27]
                                 @ ''t start new thread'')\<rparr>) \<and>
   active_ids (fst (start_command_execution_with_timeout_and_background_support
       (run [quiet_start]) ''echo hello'' 2000 None echo_hello_env)) = {1, 2} \<and>
   next_session_id (fst (start_command_execution_with_timeout_and_background_support
       (run [quiet_start]) ''echo hello'' 2000 None echo_hello_env)) = 3 \<and>
   result_process_id (snd (start_command_execution_with_timeout_and_background_support
       (run [quiet_start]) ''echo hello'' 2000 None echo_hello_env)) = 2 \<and>
   result_process_id (snd (start_command_execution_with_timeout_and_background_support
       (run [quiet_start]) ''echo hello'' (10 ^ 400) None echo_hello_env)) = - 1 \<and>
   active_ids (fst (start_command_execution_with_timeout_and_background_support
       (run [quiet_start]) ''echo hello'' (10 ^ 400) None echo_hello_env)) = {1, 2}"
proof -
  have p1: "popen no_such_shell_env = PopenRaises ''No such file or directory''"
    by (simp add: no_such_shell_env_def)
  have p2: "popen no_thread_env = PopenReturns 0 \<and>
      thread_start no_thread_env = Some (''can'' @ [CHR 0x27] @ ''t start new thread'')"
    by (simp add: no_thread_env_def)
  have p3: "popen echo_hello_env = PopenReturns 0 \<and> thread_start echo_hello_env = None"
    by (simp add: echo_hello_env_def)
  have n: "next_session_id (run [quiet_start]) = 2" "active_ids (run [quiet_start]) = {1}"
    by (simp_all add: run_quiet_start active_ids_def)
  have small: "converts_to_float 2000" by (simp add: converts_to_float_small)
  have large: "\<not> converts_to_float (10 ^ 400)" by code_simp
  note t = start_registers_no_session_iff_spawn_or_thread_fails
  from t[of no_such_shell_env "[quiet_start]" "''nosuch''" 30000 "Some ''/bin/nosuch''",
      THEN conjunct1, rule_format, OF p1]
  have a: "start_command_execution_with_timeout_and_background_support (run [quiet_start])
       ''nosuch'' 30000 (Some ''/bin/nosuch'') no_such_shell_env
     = (run [quiet_start],
        \<lparr>result_process_id = - 1, initial_output_text = '''',
         command_is_still_running_in_background = False,
         error_message = Some ''Failed to execute command: No such file or directory''\<rparr>)"
    by simp
  from t[of no_thread_env "[quiet_start]" "''sleep 60''" 30000 None,
      THEN conjunct2, THEN conjunct1, rule_format, OF p2]
  have b: "start_command_execution_with_timeout_and_background_support (run [quiet_start])
       ''sleep 60'' 30000 None no_thread_env
     = ((run [quiet_start])\<lparr>next_session_id := 3\<rparr>,
        \<lparr>result_process_id = - 1, initial_output_text = '''',
         command_is_still_running_in_background = False,
         error_message = Some (''Failed to execute command: can'' @ [CHR 0x27]
                                 @ ''t start new thread'')\<rparr>)"
    unfolding n by simp
  from t[of echo_hello_env "[quiet_start]" "''echo hello''" 2000 None,
      THEN conjunct2, THEN conjunct2, THEN conjunct1, rule_format, OF p3]
  have c: "active_ids (fst (start_command_execution_with_timeout_and_background_support
       (run [quiet_start]) ''echo hello'' 2000 None echo_hello_env)) = {1, 2} \<and>
   next_session_id (fst (start_command_execution_with_timeout_and_background_support
       (run [quiet_start]) ''echo hello'' 2000 None echo_hello_env)) = 3 \<and>
   result_process_id (snd (start_command_execution_with_timeout_and_background_support
       (run [quiet_start]) ''echo hello'' 2000 None echo_hello_env)) = 2"
    unfolding n using small by auto
  from t[of echo_hello_env "[quiet_start]" "''echo hello''" "10 ^ 400" None,
      THEN conjunct2, THEN conjunct2, THEN conjunct1, rule_format, OF p3]
  have d: "result_process_id (snd (start_command_execution_with_timeout_and_background_support
       (run [quiet_start]) ''echo hello'' (10 ^ 400) None echo_hello_env)) = - 1 \<and>
   active_ids (fst (start_command_execution_with_timeout_and_background_support
       (run [quiet_start]) ''echo hello'' (10 ^ 400) None echo_hello_env)) = {1, 2}"
    unfolding n using large by auto
  from a b c d show ?thesis by blast
qed

section \<open>A run that fills the history\<close>

theorem history_bounded_and_lowest_id_evicted_witness:
  "map_of (active_terminal_sessions (run full_history_ops)) 101 =
     Some \<lparr>process_id = 101, process = 0, accumulated_output_buffer = [],
            newly_available_output_since_last_read = [],
            command_execution_has_completed = False, session_creation_timestamp = 0,
            output_reading_thread = Some 0, output_queue = [], last_exit_code = None\<rparr> \<and>
   map fst (completed_session_history (run full_history_ops)) = map int [1..<101] \<and>
   length (completed_session_history
             (move_session_to_completed (run full_history_ops) 101 0)) = 100 \<and>
   map fst (completed_session_history
              (move_session_to_completed (run full_history_ops) 101 0)) = map int [2..<102]"
proof -
  have act: "map_of (active_terminal_sessions (run full_history_ops)) 101 =
     Some \<lparr>process_id = 101, process = 0, accumulated_output_buffer = [],
            newly_available_output_since_last_read = [],
            command_execution_has_completed = False, session_creation_timestamp = 0,
            output_reading_thread = Some 0, output_queue = [], last_exit_code = None\<rparr>"
    by code_simp
  have keys: "map fst (completed_session_history (run full_history_ops)) = map int [1..<101]"
    by code_simp
  then have "length (map fst (completed_session_history (run full_history_ops))) = 100"
    by simp
  then have full: "\<not> length (completed_session_history (run full_history_ops)) < 100"
    by simp
  have after: "map fst (completed_session_history
              (move_session_to_completed (run full_history_ops) 101 0)) = map int [2..<102]"
    by code_simp
  have "length (completed_session_history
             (move_session_to_completed (run full_history_ops) 101 0)) = 100"
    using history_bounded_and_lowest_id_evicted[of full_history_ops, THEN conjunct2,
      rule_format, OF act, of 0] full
    unfolding Let_def by meson
  with act keys after show ?thesis by simp
qed

end
